theory Spec2Isabelle
  imports Complex_Main "HOL-Library.AList"
begin

section \<open>Treasurer agent: data model\<close>

text \<open>
  The development embeds \<^verbatim>\<open>disaster_management_system/agents/treasurer.py\<close>.
  Amounts and timestamps are Python floats in the source; they are modelled as exact
  rationals, so every statement below is about the arithmetic the code writes down, not
  about binary rounding of intermediate products. Timestamps are seconds.

  Exceptions are values: every \<^verbatim>\<open>try/except Exception\<close> of the source is a case
  distinction on a sum whose left injection is the exception raised.
\<close>

datatype error =
    AttributeError string
  | TypeError string
  | KeyError string
  | Fault string

fun str :: "error \<Rightarrow> string" where
  "str (AttributeError m) = m"
| "str (TypeError m) = m"
| "str (KeyError m) = m"
| "str (Fault m) = m"

text \<open>
  An attribute value as the arithmetic of \<^verbatim>\<open>_calculate_funding_amount\<close> sees it: a number,
  or anything else (\<^verbatim>\<open>None\<close>, a string, a list), on which \<^verbatim>\<open><=\<close> against \<^verbatim>\<open>0\<close> and
  \<^verbatim>\<open>/\<close> by a float raise \<^verbatim>\<open>TypeError\<close>.
\<close>

datatype pyval = Num rat | NotNum

record original_event =
  disaster_type :: string

text \<open>
  The event as the agent reads it. An attribute that the object does not have is \<open>None\<close>:
  \<^verbatim>\<open>getattr(obj, name, default)\<close> then yields the default and a plain \<^verbatim>\<open>obj.name\<close> raises
  \<^verbatim>\<open>AttributeError\<close>.
\<close>

record verified_event =
  event_id :: "string option"
  funding_recommendation :: "pyval option"
  verification_score :: "pyval option"
  human_impact_estimate :: "pyval option"
  original_event :: "original_event option"

text \<open>The three settings read in \<^verbatim>\<open>__init__\<close>, with the defaults of \<^verbatim>\<open>config.get\<close>.\<close>

record config =
  min_funding_amount :: rat
  max_funding_amount :: rat
  funding_timeout :: rat

definition default_config :: config where
  "default_config =
     \<lparr>min_funding_amount = 1 / 100, max_funding_amount = 2, funding_timeout = 300\<rparr>"

section \<open>Funding policy\<close>

text \<open>\<^verbatim>\<open>getattr(obj, name, default)\<close>.\<close>

definition getattr :: "'a option \<Rightarrow> 'a \<Rightarrow> 'a" where
  "getattr field dflt = (case field of None \<Rightarrow> dflt | Some v \<Rightarrow> v)"

text \<open>
  \<^verbatim>\<open>round(x, n)\<close> of Python: the nearest multiple of \<open>10\<^sup>-\<^sup>n\<close>, a tie going to the even one.
\<close>

definition round_half_even :: "rat \<Rightarrow> int" where
  "round_half_even y =
     (let f = \<lfloor>y\<rfloor>; d = y - of_int f
      in if d < 1 / 2 then f
         else if 1 / 2 < d then f + 1
         else if even f then f else f + 1)"

definition py_round :: "rat \<Rightarrow> nat \<Rightarrow> rat" where
  "py_round x n = of_int (round_half_even (x * 10 ^ n)) / 10 ^ n"

text \<open>The literal \<^verbatim>\<open>disaster_multipliers\<close> and \<^verbatim>\<open>dict.get(key, default)\<close>.\<close>

definition disaster_multipliers :: "(string \<times> rat) list" where
  "disaster_multipliers =
     [(''fire'', 1), (''flood'', 12 / 10), (''structural'', 11 / 10), (''casualty'', 15 / 10)]"

definition dict_get :: "('k \<times> 'v) list \<Rightarrow> 'k \<Rightarrow> 'v \<Rightarrow> 'v" where
  "dict_get d k dflt = (case map_of d k of None \<Rightarrow> dflt | Some v \<Rightarrow> v)"

text \<open>
  The product of line 170, before the floor and the ceiling are applied: the spec's
  ``raw'' amount. It is defined on the numbers the \<^verbatim>\<open>try\<close> block has already extracted.
\<close>

definition raw_amount :: "config \<Rightarrow> rat \<Rightarrow> rat \<Rightarrow> rat \<Rightarrow> string \<Rightarrow> rat" where
  "raw_amount cfg rec_amount score impact dtype =
     (let base_amount = (if rec_amount \<le> 0 then min_funding_amount cfg else rec_amount);
          verification_factor = score / 100;
          impact_factor = min 2 (impact / 1000);
          disaster_factor = dict_get disaster_multipliers dtype 1
      in base_amount * verification_factor * impact_factor * disaster_factor)"

text \<open>
  The body of the \<^verbatim>\<open>try\<close> block of \<^verbatim>\<open>_calculate_funding_amount\<close>, statement by statement.
  \<open>Inl\<close> is an exception leaving the block.
\<close>

definition calculate_try :: "config \<Rightarrow> verified_event \<Rightarrow> error + rat" where
  "calculate_try cfg ev =
     (case getattr (funding_recommendation ev) (Num (min_funding_amount cfg)) of
        NotNum \<Rightarrow> Inl (TypeError ''<= not supported'')
      | Num rec_amount \<Rightarrow>
     (case getattr (verification_score ev) (Num 80) of
        NotNum \<Rightarrow> Inl (TypeError ''unsupported operand for /'')
      | Num score \<Rightarrow>
     (case getattr (human_impact_estimate ev) (Num 100) of
        NotNum \<Rightarrow> Inl (TypeError ''unsupported operand for /'')
      | Num impact \<Rightarrow>
     (case original_event ev of
        None \<Rightarrow> Inl (AttributeError ''original_event'')
      | Some oe \<Rightarrow>
          (let final_amount = raw_amount cfg rec_amount score impact (disaster_type oe);
               final_amount = max (min_funding_amount cfg) final_amount;
               final_amount = min (max_funding_amount cfg) final_amount
           in Inr (py_round final_amount 6))))))"

text \<open>\<^verbatim>\<open>_calculate_funding_amount\<close>: the \<^verbatim>\<open>except\<close> clause returns the minimum.\<close>

definition calculate_funding_amount :: "config \<Rightarrow> verified_event \<Rightarrow> rat" where
  "calculate_funding_amount cfg ev =
     (case calculate_try cfg ev of
        Inl e \<Rightarrow> min_funding_amount cfg
      | Inr a \<Rightarrow> a)"

section \<open>Collaborators\<close>

text \<open>
  \<^verbatim>\<open>BlockchainManager\<close>, \<^verbatim>\<open>VerifiedEvent.from_dict\<close> and the clock belong to other
  modules of the package; the agent is verified for every behaviour they may have. They are the
  fields of an environment record. \<open>'w\<close> is the state of the outside world (ledger,
  network, clock): every call takes it and returns it, so two calls of the same operation
  may answer differently. A call that raises returns \<open>Inl\<close>. \<open>'r\<close> is the serialized
  event carried by a message.
\<close>

type_synonym datetime = rat

type_synonym recipient = "string \<times> rat"

record recipient_amount =
  address :: string
  amount :: rat

text \<open>One result of \<^verbatim>\<open>send_multiple_transactions\<close>: a dict that may hold the key
  \<^verbatim>\<open>'transaction_hash'\<close>.\<close>

record tx_result =
  transaction_hash :: "string option"

text \<open>
  \<open>get_transaction_status\<close> answers with a dict; its entry under \<^verbatim>\<open>'status'\<close> is \<open>Some\<close> of
  a string, and \<open>None\<close> when the dict has no such key (then \<^verbatim>\<open>status['status']\<close> raises
  \<^verbatim>\<open>KeyError\<close>).
\<close>

record ('w, 'r) env =
  from_dict :: "'r \<Rightarrow> error + verified_event"
  get_balance :: "'w \<Rightarrow> (error + rat) \<times> 'w"
  get_default_recipients :: "string \<Rightarrow> 'w \<Rightarrow> (error + recipient list) \<times> 'w"
  calculate_recipient_amounts ::
    "rat \<Rightarrow> recipient list \<Rightarrow> 'w \<Rightarrow> (error + recipient_amount list) \<times> 'w"
  send_multiple_transactions ::
    "recipient_amount list \<Rightarrow> 'w \<Rightarrow> (error + tx_result list) \<times> 'w"
  get_transaction_status :: "string \<Rightarrow> 'w \<Rightarrow> (error + string option) \<times> 'w"
  get_network_info :: "'w \<Rightarrow> (error + string) \<times> 'w"
  utcnow :: "'w \<Rightarrow> datetime \<times> 'w"

section \<open>The transaction ledger\<close>

datatype tx_status = Pending | Confirmed | Failed | Timeout | Stopped

record funding_transaction =
  transaction_id :: nat
  tx_event_id :: string
  recipient_addresses :: "string list"
  amounts :: "rat list"
  transaction_hashes :: "string list"
  total_amount :: rat
  status :: tx_status
  timestamp :: datetime

text \<open>The dict stored under a transaction id.\<close>

record tx_data =
  funding_transaction :: funding_transaction
  transaction_results :: "tx_result list"
  created_at :: datetime

text \<open>
  The two dicts of the agent are association lists in insertion order, which is the order
  in which Python iterates over them. \<^verbatim>\<open>d[k] = v\<close> is \<^const>\<open>AList.update\<close> (in place
  for a key that is there, at the end for a new one), \<^verbatim>\<open>d.pop(k)\<close> is
  \<^const>\<open>AList.delete\<close>.

  Modelled from the spec: the constructor of \<^verbatim>\<open>FundingTransaction\<close> (in
  \<^verbatim>\<open>shared/models.py\<close>, a module that is not embedded here) replaces the empty
  \<^verbatim>\<open>transaction_id\<close> it is given by one that is ``generated at creation, unique, never
  reused''. The model numbers the transactions: \<open>issued\<close> counts the constructor calls so
  far and is the next id.
\<close>

record agent =
  pending_transactions :: "(nat \<times> tx_data) list"
  completed_transactions :: "(nat \<times> tx_data) list"
  issued :: nat

definition initial_agent :: agent where
  "initial_agent = \<lparr>pending_transactions = [], completed_transactions = [], issued = 0\<rparr>"

section \<open>Message processing\<close>

text \<open>
  The \<^verbatim>\<open>try\<close> block of \<^verbatim>\<open>distribute_funding\<close>. The result is what the block returns or
  the exception that leaves it, with the agent and the world as they are at that moment.
\<close>

definition distribute_try ::
  "('w, 'r) env \<Rightarrow> config \<Rightarrow> verified_event \<Rightarrow> agent \<times> 'w
     \<Rightarrow> (error + funding_transaction option) \<times> agent \<times> 'w" where
  "distribute_try env cfg ev sw =
     (let (s, w) = sw;
          funding_amount = calculate_funding_amount cfg ev
      in if funding_amount < min_funding_amount cfg then (Inr None, s, w)
         else
     (case get_balance env w of
        (Inl e, w1) \<Rightarrow> (Inl e, s, w1)
      | (Inr balance, w1) \<Rightarrow>
          if balance < funding_amount then (Inr None, s, w1)
          else
     (case original_event ev of
        None \<Rightarrow> (Inl (AttributeError ''original_event''), s, w1)
      | Some oe \<Rightarrow>
     (case get_default_recipients env (disaster_type oe) w1 of
        (Inl e, w2) \<Rightarrow> (Inl e, s, w2)
      | (Inr recipients, w2) \<Rightarrow>
     (case calculate_recipient_amounts env funding_amount recipients w2 of
        (Inl e, w3) \<Rightarrow> (Inl e, s, w3)
      | (Inr recipient_amounts, w3) \<Rightarrow>
     (case send_multiple_transactions env recipient_amounts w3 of
        (Inl e, w4) \<Rightarrow> (Inl e, s, w4)
      | (Inr results, w4) \<Rightarrow>
     (case event_id ev of
        None \<Rightarrow> (Inl (AttributeError ''event_id''), s, w4)
      | Some eid \<Rightarrow>
          (let (t1, w5) = utcnow env w4;
               ft = \<lparr>transaction_id = issued s,
                     tx_event_id = eid,
                     recipient_addresses = map address recipient_amounts,
                     amounts = map amount recipient_amounts,
                     transaction_hashes =
                       map (\<lambda>r. getattr (transaction_hash r) []) results,
                     total_amount = funding_amount,
                     status = Pending,
                     timestamp = t1\<rparr>;
               s1 = s\<lparr>issued := Suc (issued s)\<rparr>;
               (t2, w6) = utcnow env w5;
               s2 = s1\<lparr>pending_transactions :=
                         AList.update (transaction_id ft)
                           \<lparr>funding_transaction = ft,
                            transaction_results = results,
                            created_at = t2\<rparr>
                           (pending_transactions s1)\<rparr>
           in (Inr (Some ft), s2, w6)))))))))"

text \<open>\<^verbatim>\<open>distribute_funding\<close>: any exception is logged and \<^verbatim>\<open>None\<close> is returned.\<close>

definition distribute_funding ::
  "('w, 'r) env \<Rightarrow> config \<Rightarrow> verified_event \<Rightarrow> agent \<times> 'w
     \<Rightarrow> funding_transaction option \<times> agent \<times> 'w" where
  "distribute_funding env cfg ev sw =
     (case distribute_try env cfg ev sw of
        (Inl e, s', w') \<Rightarrow> (None, s', w')
      | (Inr r, s', w') \<Rightarrow> (r, s', w'))"

text \<open>
  The dict returned by \<^verbatim>\<open>process_message\<close>, by its \<^verbatim>\<open>'status'\<close> tag. A message is the
  value under its key \<^verbatim>\<open>'verified_event'\<close>, \<open>None\<close> when the key is absent.
\<close>

datatype outcome =
    Funding_initiated nat rat
  | Funding_failed
  | No_event_to_fund
  | Error string

type_synonym 'r message = "'r option"

text \<open>
  Both branches after \<^verbatim>\<open>distribute_funding\<close> format \<^verbatim>\<open>verified_event.event_id\<close> into a log
  line, which raises when the attribute is missing; the \<^verbatim>\<open>except\<close> clause of
  \<^verbatim>\<open>process_message\<close> turns that, and a fault of \<^verbatim>\<open>from_dict\<close>, into the error outcome.
\<close>

definition process_message ::
  "('w, 'r) env \<Rightarrow> config \<Rightarrow> 'r message \<Rightarrow> agent \<times> 'w \<Rightarrow> outcome \<times> agent \<times> 'w" where
  "process_message env cfg message sw =
     (case message of
        None \<Rightarrow> (No_event_to_fund, sw)
      | Some raw \<Rightarrow>
     (case from_dict env raw of
        Inl e \<Rightarrow> (Error (str e), sw)
      | Inr ev \<Rightarrow>
     (case distribute_funding env cfg ev sw of
        (Some ft, s', w') \<Rightarrow>
          (case event_id ev of
             None \<Rightarrow> (Error (str (AttributeError ''event_id'')), s', w')
           | Some eid \<Rightarrow> (Funding_initiated (transaction_id ft) (total_amount ft), s', w'))
      | (None, s', w') \<Rightarrow>
          (case event_id ev of
             None \<Rightarrow> (Error (str (AttributeError ''event_id'')), s', w')
           | Some eid \<Rightarrow> (Funding_failed, s', w')))))"

section \<open>Reconciliation sweep\<close>

text \<open>
  The inner loop of \<^verbatim>\<open>_check_pending_transactions\<close> over the submission results of one
  entry, from the flags \<open>(all_confirmed, any_failed)\<close> it has reached. A result without the
  key \<^verbatim>\<open>'transaction_hash'\<close> is passed over; \<^verbatim>\<open>break\<close> ends the loop at the first failed
  transfer; a raising status query, or an answer without \<^verbatim>\<open>'status'\<close>, leaves the loop
  as an exception.
\<close>

fun check_hashes ::
  "('w, 'r) env \<Rightarrow> tx_result list \<Rightarrow> bool \<times> bool \<Rightarrow> 'w \<Rightarrow> (error + bool \<times> bool) \<times> 'w" where
  "check_hashes env [] flags w = (Inr flags, w)"
| "check_hashes env (result # results) flags w =
     (case transaction_hash result of
        None \<Rightarrow> check_hashes env results flags w
      | Some tx_hash \<Rightarrow>
          (case get_transaction_status env tx_hash w of
             (Inl e, w1) \<Rightarrow> (Inl e, w1)
           | (Inr None, w1) \<Rightarrow> (Inl (KeyError ''status''), w1)
           | (Inr (Some st), w1) \<Rightarrow>
               if st = ''confirmed'' then check_hashes env results flags w1
               else if st = ''failed'' then (Inr (fst flags, True), w1)
               else check_hashes env results (False, snd flags) w1))"

text \<open>
  The \<^verbatim>\<open>try\<close> block for one pending entry: the entry as the block leaves it and the ids
  the block appends to \<^verbatim>\<open>completed_ids\<close>, or the exception. The status is assigned in
  place, first from the flags, then from the clock.
\<close>

definition set_status :: "tx_status \<Rightarrow> tx_data \<Rightarrow> tx_data" where
  "set_status st d = d\<lparr>funding_transaction := (funding_transaction d)\<lparr>status := st\<rparr>\<rparr>"

definition check_entry ::
  "('w, 'r) env \<Rightarrow> config \<Rightarrow> nat \<Rightarrow> tx_data \<Rightarrow> 'w \<Rightarrow> (error + tx_data \<times> nat list) \<times> 'w" where
  "check_entry env cfg tx_id d w =
     (case check_hashes env (transaction_results d) (True, False) w of
        (Inl e, w1) \<Rightarrow> (Inl e, w1)
      | (Inr (all_confirmed, any_failed), w1) \<Rightarrow>
          (let (d1, ids1) =
                 (if any_failed then (set_status Failed d, [tx_id])
                  else if all_confirmed then (set_status Confirmed d, [tx_id])
                  else (d, []));
               (now, w2) = utcnow env w1;
               time_elapsed = now - created_at d1
           in if funding_timeout cfg < time_elapsed
              then (Inr (set_status Timeout d1, ids1 @ [tx_id]), w2)
              else (Inr (d1, ids1), w2)))"

text \<open>
  The first \<^verbatim>\<open>for\<close> loop: every entry in turn; an exception is logged and the entry is left
  as it was. The result is the world, \<^verbatim>\<open>completed_ids\<close> and the entries after the loop.
\<close>

fun check_all ::
  "('w, 'r) env \<Rightarrow> config \<Rightarrow> (nat \<times> tx_data) list \<Rightarrow> 'w
     \<Rightarrow> 'w \<times> nat list \<times> (nat \<times> tx_data) list" where
  "check_all env cfg [] w = (w, [], [])"
| "check_all env cfg ((tx_id, d) # rest) w =
     (case check_entry env cfg tx_id d w of
        (Inl e, w1) \<Rightarrow>
          (case check_all env cfg rest w1 of
             (w2, ids, rest') \<Rightarrow> (w2, ids, (tx_id, d) # rest'))
      | (Inr (d', ids1), w1) \<Rightarrow>
          (case check_all env cfg rest w1 of
             (w2, ids, rest') \<Rightarrow> (w2, ids1 @ ids, (tx_id, d') # rest')))"

text \<open>
  \<^verbatim>\<open>tx_id in d\<close>, \<^verbatim>\<open>d[tx_id]\<close> for a key that is there, and the second \<^verbatim>\<open>for\<close> loop, which
  moves the entries named in \<^verbatim>\<open>completed_ids\<close>.
\<close>

fun move_completed ::
  "nat list \<Rightarrow> (nat \<times> tx_data) list \<times> (nat \<times> tx_data) list
     \<Rightarrow> (nat \<times> tx_data) list \<times> (nat \<times> tx_data) list" where
  "move_completed [] pc = pc"
| "move_completed (tx_id # ids) (pending, completed) =
     (case map_of pending tx_id of
        None \<Rightarrow> move_completed ids (pending, completed)
      | Some d \<Rightarrow>
          move_completed ids (AList.delete tx_id pending, AList.update tx_id d completed))"

definition check_pending_transactions ::
  "('w, 'r) env \<Rightarrow> config \<Rightarrow> agent \<times> 'w \<Rightarrow> agent \<times> 'w" where
  "check_pending_transactions env cfg sw =
     (let (s, w) = sw;
          (w', completed_ids, pending) = check_all env cfg (pending_transactions s) w;
          (pending', completed') = move_completed completed_ids (pending, completed_transactions s)
      in (s\<lparr>pending_transactions := pending', completed_transactions := completed'\<rparr>, w'))"

section \<open>Administrative operations\<close>

text \<open>\<^verbatim>\<open>emergency_stop_funding\<close>: the loop over the pending entries, then \<^verbatim>\<open>clear()\<close>.\<close>

fun stop_all ::
  "(nat \<times> tx_data) list \<Rightarrow> (nat \<times> tx_data) list \<Rightarrow> (nat \<times> tx_data) list" where
  "stop_all [] completed = completed"
| "stop_all ((tx_id, d) # rest) completed =
     stop_all rest (AList.update tx_id (set_status Stopped d) completed)"

datatype stop_outcome = Emergency_stop_activated nat datetime

definition emergency_stop_funding ::
  "('w, 'r) env \<Rightarrow> agent \<times> 'w \<Rightarrow> stop_outcome \<times> agent \<times> 'w" where
  "emergency_stop_funding env sw =
     (let (s, w) = sw;
          pending_count = length (pending_transactions s);
          completed' = stop_all (pending_transactions s) (completed_transactions s);
          s' = s\<lparr>pending_transactions := [], completed_transactions := completed'\<rparr>;
          (now, w') = utcnow env w
      in (Emergency_stop_activated pending_count now, s', w'))"

text \<open>
  \<^verbatim>\<open>get_funding_stats\<close>. The histogram starts from the three literal keys and counts an
  entry only when its status is one of them.
\<close>

fun count_statuses :: "tx_data list \<Rightarrow> (tx_status \<times> nat) list \<Rightarrow> (tx_status \<times> nat) list" where
  "count_statuses [] status_counts = status_counts"
| "count_statuses (d # ds) status_counts =
     (let st = status (funding_transaction d)
      in case map_of status_counts st of
           None \<Rightarrow> count_statuses ds status_counts
         | Some c \<Rightarrow> count_statuses ds (AList.update st (c + 1) status_counts))"

definition status_distribution_of :: "agent \<Rightarrow> (tx_status \<times> nat) list" where
  "status_distribution_of s =
     count_statuses (map snd (completed_transactions s))
       [(Confirmed, 0), (Failed, 0), (Timeout, 0)]"

record funding_stats =
  stats_pending_transactions :: nat
  stats_completed_transactions :: nat
  pending_amount_eth :: rat
  completed_amount_eth :: rat
  total_amount_eth :: rat
  status_distribution :: "(tx_status \<times> nat) list"
  account_balance_eth :: rat
  network_info :: string
  last_updated :: datetime

text \<open>The result is \<open>None\<close> for the empty dict of the \<^verbatim>\<open>except\<close> clause.\<close>

definition get_funding_stats ::
  "('w, 'r) env \<Rightarrow> agent \<Rightarrow> 'w \<Rightarrow> funding_stats option \<times> 'w" where
  "get_funding_stats env s w =
     (let total_pending = length (pending_transactions s);
          total_completed = length (completed_transactions s);
          pending_amount =
            sum_list (map (\<lambda>(k, d). total_amount (funding_transaction d)) (pending_transactions s));
          completed_amount =
            sum_list (map (\<lambda>(k, d). total_amount (funding_transaction d)) (completed_transactions s));
          status_counts = status_distribution_of s
      in case get_network_info env w of
           (Inl e, w1) \<Rightarrow> (None, w1)
         | (Inr info, w1) \<Rightarrow>
             (case get_balance env w1 of
                (Inl e, w2) \<Rightarrow> (None, w2)
              | (Inr balance, w2) \<Rightarrow>
                  (let (now, w3) = utcnow env w2
                   in (Some \<lparr>stats_pending_transactions = total_pending,
                             stats_completed_transactions = total_completed,
                             pending_amount_eth = pending_amount,
                             completed_amount_eth = completed_amount,
                             total_amount_eth = pending_amount + completed_amount,
                             status_distribution = status_counts,
                             account_balance_eth = balance,
                             network_info = info,
                             last_updated = now\<rparr>, w3))))"

section \<open>Reachable ledgers\<close>

text \<open>
  The agents that exist at an operation boundary: the fresh agent of \<^verbatim>\<open>__init__\<close>, and
  what a complete run of one of the operations that write the ledger makes of such an
  agent, in any state of the world. \<^verbatim>\<open>distribute_funding\<close> is among them because the web
  layer calls it directly.
\<close>

inductive reachable :: "('w, 'r) env \<Rightarrow> config \<Rightarrow> agent \<Rightarrow> bool" for env cfg where
  fresh: "reachable env cfg initial_agent"
| message: "reachable env cfg s \<Longrightarrow> process_message env cfg m (s, w) = (out, s', w')
     \<Longrightarrow> reachable env cfg s'"
| funding: "reachable env cfg s \<Longrightarrow> distribute_funding env cfg ev (s, w) = (r, s', w')
     \<Longrightarrow> reachable env cfg s'"
| sweep: "reachable env cfg s \<Longrightarrow> check_pending_transactions env cfg (s, w) = (s', w')
     \<Longrightarrow> reachable env cfg s'"
| stop: "reachable env cfg s \<Longrightarrow> emergency_stop_funding env (s, w) = (out, s', w')
     \<Longrightarrow> reachable env cfg s'"

section \<open>Ledger invariant\<close>

text \<open>
  What the two partitions satisfy at every operation boundary: each is a dict (its keys
  are distinct), no id is in both, the ids recorded are the ids issued, the pending
  entries are \<open>Pending\<close> and the completed ones are not.
\<close>

definition keys :: "('k \<times> 'v) list \<Rightarrow> 'k set" where
  "keys d = fst ` set d"

definition status_of :: "tx_data \<Rightarrow> tx_status" where
  "status_of d = status (funding_transaction d)"

definition ledger_inv :: "agent \<Rightarrow> bool" where
  "ledger_inv s \<longleftrightarrow>
     distinct (map fst (pending_transactions s)) \<and>
     distinct (map fst (completed_transactions s)) \<and>
     keys (pending_transactions s) \<inter> keys (completed_transactions s) = {} \<and>
     keys (pending_transactions s) \<union> keys (completed_transactions s) = {..<issued s} \<and>
     (\<forall>(k, d) \<in> set (pending_transactions s). status_of d = Pending) \<and>
     (\<forall>(k, d) \<in> set (completed_transactions s). status_of d \<noteq> Pending)"

text \<open>The number of entries of a partition that carry a given status.\<close>

definition count_status :: "tx_status \<Rightarrow> (nat \<times> tx_data) list \<Rightarrow> nat" where
  "count_status st d = length (filter (\<lambda>(k, x). status_of x = st) d)"

text \<open>The ids of a partition with the status of each entry.\<close>

definition statuses :: "(nat \<times> tx_data) list \<Rightarrow> (nat \<times> tx_status) list" where
  "statuses d = map (\<lambda>(k, x). (k, status_of x)) d"

section \<open>Concrete collaborators and inputs\<close>

text \<open>
  A ledger gateway that accepts and confirms everything, for the evaluations below. Its
  world is the reading of the clock. Two recipients share an amount 60 to 40, and the
  reference of a transfer is the address it goes to.
\<close>

definition demo_env :: "(datetime, verified_event) env" where
  "demo_env =
     \<lparr>from_dict = Inr,
      get_balance = (\<lambda>w. (Inr 10, w)),
      get_default_recipients = (\<lambda>dtype w. (Inr [(''ngo'', 6 / 10), (''gov'', 4 / 10)], w)),
      calculate_recipient_amounts =
        (\<lambda>a rs w. (Inr (map (\<lambda>(addr, share). \<lparr>address = addr, amount = a * share\<rparr>) rs), w)),
      send_multiple_transactions =
        (\<lambda>ras w. (Inr (map (\<lambda>r. \<lparr>transaction_hash = Some (address r)\<rparr>) ras), w)),
      get_transaction_status = (\<lambda>h w. (Inr (Some ''confirmed''), w)),
      get_network_info = (\<lambda>w. (Inr ''testnet'', w)),
      utcnow = (\<lambda>w. (w, w))\<rparr>"

text \<open>The same gateway when only the first transfer of a submission is accepted.\<close>

definition partial_env :: "(datetime, verified_event) env" where
  "partial_env =
     demo_env\<lparr>send_multiple_transactions :=
       (\<lambda>ras w. (Inr (case ras of
                        [] \<Rightarrow> []
                      | r # rs \<Rightarrow> \<lparr>transaction_hash = Some (address r)\<rparr>
                                  # map (\<lambda>r. \<lparr>transaction_hash = None\<rparr>) rs), w))\<rparr>"

text \<open>The same gateway when the status query for the reference \<open>gov\<close> raises.\<close>

definition flaky_env :: "(datetime, verified_event) env" where
  "flaky_env =
     demo_env\<lparr>get_transaction_status :=
       (\<lambda>h w. if h = ''gov'' then (Inl (Fault ''status query failed''), w)
               else (Inr (Some ''confirmed''), w))\<rparr>"

text \<open>The same gateway when the balance query raises.\<close>

definition offline_env :: "(datetime, verified_event) env" where
  "offline_env = demo_env\<lparr>get_balance := (\<lambda>w. (Inl (Fault ''node unreachable''), w))\<rparr>"

text \<open>The events of the two scenarios of the specification, and one with a field that
  is not a number.\<close>

definition fire_event :: verified_event where
  "fire_event =
     \<lparr>event_id = Some ''evt-fire'',
      funding_recommendation = Some (Num 0),
      verification_score = Some (Num 80),
      human_impact_estimate = Some (Num 100),
      original_event = Some \<lparr>disaster_type = ''fire''\<rparr>\<rparr>"

definition casualty_event :: verified_event where
  "casualty_event =
     \<lparr>event_id = Some ''evt-casualty'',
      funding_recommendation = Some (Num (1 / 100)),
      verification_score = Some (Num 100),
      human_impact_estimate = Some (Num 2000),
      original_event = Some \<lparr>disaster_type = ''casualty''\<rparr>\<rparr>"

definition malformed_event :: verified_event where
  "malformed_event = fire_event\<lparr>verification_score := Some NotNum\<rparr>"

text \<open>The configuration of the end-to-end scenario, and one whose ceiling has seven
  fractional digits.\<close>

definition micro_config :: config where
  "micro_config =
     \<lparr>min_funding_amount = 1 / 1000000, max_funding_amount = 5 / 1000000,
      funding_timeout = 300\<rparr>"

definition fine_config :: config where
  "fine_config =
     \<lparr>min_funding_amount = 1 / 1000000, max_funding_amount = 26 / 10000000,
      funding_timeout = 300\<rparr>"

text \<open>A transfer whose submission carried no reference, and ledgers built from it.\<close>

definition sample_tx :: "nat \<Rightarrow> tx_status \<Rightarrow> tx_result list \<Rightarrow> tx_data" where
  "sample_tx n st results =
     \<lparr>funding_transaction =
        \<lparr>transaction_id = n, tx_event_id = ''evt'', recipient_addresses = [''ngo'', ''gov''],
         amounts = [6 / 1000, 4 / 1000],
         transaction_hashes = map (\<lambda>r. getattr (transaction_hash r) []) results,
         total_amount = 1 / 100, status = st, timestamp = 0\<rparr>,
      transaction_results = results,
      created_at = 0\<rparr>"

definition sample_agent :: agent where
  "sample_agent =
     \<lparr>pending_transactions =
        [(1, sample_tx 1 Pending [\<lparr>transaction_hash = Some ''ngo''\<rparr>]),
         (2, sample_tx 2 Pending [\<lparr>transaction_hash = Some ''gov''\<rparr>]),
         (3, sample_tx 3 Pending [\<lparr>transaction_hash = Some ''ngo''\<rparr>])],
      completed_transactions =
        [(0, sample_tx 0 Confirmed [\<lparr>transaction_hash = Some ''ngo''\<rparr>])],
      issued = 4\<rparr>"

text \<open>The agent after one funded message, and after a sweep or a stop that follows it.\<close>

definition funded_agent :: agent where
  "funded_agent =
     fst (snd (process_message demo_env default_config (Some fire_event) (initial_agent, 0)))"

definition swept_agent :: agent where
  "swept_agent = fst (check_pending_transactions demo_env default_config (funded_agent, 10))"

definition stopped_agent :: agent where
  "stopped_agent = fst (snd (emergency_stop_funding demo_env (funded_agent, 10)))"

text \<open>The agent and the world after the fire event was funded through the gateway that
  accepts only the first transfer.\<close>

definition partially_submitted :: "agent \<times> datetime" where
  "partially_submitted =
     snd (distribute_funding partial_env default_config fire_event (initial_agent, 0))"

section \<open>Properties\<close>

subsection \<open>What one funding attempt does to the agent\<close>

lemma distribute_try_cases:
  assumes "distribute_try env cfg ev (s, w) = (r, s', w')"
  shows "((\<forall>ft. r \<noteq> Inr (Some ft)) \<and> s' = s) \<or>
         (\<exists>ft eid results t.
            r = Inr (Some ft) \<and> event_id ev = Some eid \<and>
            transaction_id ft = issued s \<and> status ft = Pending \<and>
            total_amount ft = calculate_funding_amount cfg ev \<and>
            \<not> calculate_funding_amount cfg ev < min_funding_amount cfg \<and>
            s' = s\<lparr>issued := Suc (issued s),
                   pending_transactions :=
                     AList.update (issued s)
                       \<lparr>funding_transaction = ft, transaction_results = results,
                        created_at = t\<rparr> (pending_transactions s)\<rparr>)"
  using assms
  unfolding distribute_try_def Let_def
  by (fastforce split: prod.splits sum.splits option.splits if_splits)

lemma distribute_funding_cases:
  assumes "distribute_funding env cfg ev (s, w) = (r, s', w')"
  shows "(r = None \<and> s' = s) \<or>
         (\<exists>ft eid results t.
            r = Some ft \<and> event_id ev = Some eid \<and>
            transaction_id ft = issued s \<and> status ft = Pending \<and>
            total_amount ft = calculate_funding_amount cfg ev \<and>
            \<not> calculate_funding_amount cfg ev < min_funding_amount cfg \<and>
            s' = s\<lparr>issued := Suc (issued s),
                   pending_transactions :=
                     AList.update (issued s)
                       \<lparr>funding_transaction = ft, transaction_results = results,
                        created_at = t\<rparr> (pending_transactions s)\<rparr>)"
proof -
  obtain r0 where t: "distribute_try env cfg ev (s, w) = (r0, s', w')"
    and r: "r = (case r0 of Inl e \<Rightarrow> None | Inr x \<Rightarrow> x)"
    using assms unfolding distribute_funding_def
    by (auto split: prod.splits sum.splits)
  from distribute_try_cases[OF t] r show ?thesis
    by (cases r0) (auto split: option.splits)
qed

lemma distribute_funding_success:
  assumes "calculate_funding_amount cfg ev = a" and "\<not> a < min_funding_amount cfg"
    and "get_balance env w = (Inr b, w1)" and "\<not> b < a"
    and "original_event ev = Some oe"
    and "get_default_recipients env (disaster_type oe) w1 = (Inr rs, w2)"
    and "calculate_recipient_amounts env a rs w2 = (Inr ras, w3)"
    and "send_multiple_transactions env ras w3 = (Inr results, w4)"
    and "event_id ev = Some eid"
  shows "\<exists>ft t s' w'. distribute_funding env cfg ev (s, w) = (Some ft, s', w') \<and>
           total_amount ft = a \<and> status ft = Pending \<and>
           pending_transactions s' =
             AList.update (issued s)
               \<lparr>funding_transaction = ft, transaction_results = results, created_at = t\<rparr>
               (pending_transactions s)"
  using assms
  unfolding distribute_funding_def distribute_try_def Let_def
  by (auto split: prod.splits sum.splits option.splits if_splits)

lemma process_message_cases:
  assumes "process_message env cfg m (s, w) = (out, s', w')"
  shows "(case out of
            Funding_initiated tid a \<Rightarrow>
              (\<exists>ft results t. tid = issued s \<and> status ft = Pending \<and> total_amount ft = a \<and>
                 transaction_id ft = tid \<and>
                 s' = s\<lparr>issued := Suc (issued s),
                   pending_transactions :=
                     AList.update (issued s)
                      \<lparr>funding_transaction = ft, transaction_results = results,
                        created_at = t\<rparr> (pending_transactions s)\<rparr>)
          | _ \<Rightarrow> s' = s)"
proof (cases m)
  case None
  with assms show ?thesis by (simp add: process_message_def)
next
  case (Some raw)
  show ?thesis
  proof (cases "from_dict env raw")
    case (Inl e)
    with Some assms show ?thesis by (auto simp add: process_message_def)
  next
    case (Inr ev)
    obtain r s1 w1 where d: "distribute_funding env cfg ev (s, w) = (r, s1, w1)"
      by (metis prod_cases3)
    from distribute_funding_cases[OF d] Some Inr assms d show ?thesis
      by (fastforce simp add: process_message_def split: option.splits)
  qed
qed

subsection \<open>Dict operations on association lists\<close>

lemma update_fresh: "k \<notin> fst ` set al \<Longrightarrow> AList.update k v al = al @ [(k, v)]"
  by (induction al) auto

lemma delete_filter: "AList.delete k al = filter (\<lambda>p. fst p \<noteq> k) al"
  by (induction al) auto

lemma move_completed_pending:
  "fst (move_completed ids (P, C)) = filter (\<lambda>p. fst p \<notin> set ids) P"
proof (induction ids arbitrary: P C)
  case Nil
  then show ?case by simp
next
  case (Cons k ids)
  show ?case
  proof (cases "map_of P k")
    case None
    then have "k \<notin> fst ` set P" by (simp add: map_of_eq_None_iff)
    then have "filter (\<lambda>p. fst p \<notin> set (k # ids)) P = filter (\<lambda>p. fst p \<notin> set ids) P"
      by (intro filter_cong) auto
    with None Cons show ?thesis by simp
  next
    case (Some d)
    have "filter (\<lambda>p. fst p \<notin> set ids) (filter (\<lambda>p. fst p \<noteq> k) P)
          = filter (\<lambda>p. fst p \<notin> set (k # ids)) P"
      by (simp add: conj_commute)
    with Some Cons show ?thesis by (simp add: delete_filter)
  qed
qed

lemma move_completed_map:
  "map_of (snd (move_completed ids (P, C))) k =
     (if k \<in> set ids \<and> map_of P k \<noteq> None then map_of P k else map_of C k)"
proof (induction ids arbitrary: P C)
  case Nil
  then show ?case by simp
next
  case (Cons i ids)
  show ?case
  proof (cases "map_of P i")
    case None
    with Cons show ?thesis by auto
  next
    case (Some d)
    with Cons show ?thesis
      by (auto simp add: update_conv' delete_conv')
  qed
qed

lemma move_completed_keys:
  "fst ` set (snd (move_completed ids (P, C))) = fst ` set C \<union> (set ids \<inter> fst ` set P)"
proof -
  have "dom (map_of (snd (move_completed ids (P, C)))) = dom (map_of C) \<union> (set ids \<inter> dom (map_of P))"
    by (auto simp add: move_completed_map dom_def split: if_splits)
  then show ?thesis by (simp add: dom_map_of_conv_image_fst)
qed

lemma move_completed_distinct:
  "distinct (map fst C) \<Longrightarrow> distinct (map fst (snd (move_completed ids (P, C))))"
proof (induction ids arbitrary: P C)
  case Nil
  then show ?case by simp
next
  case (Cons i ids)
  then show ?case by (cases "map_of P i") (auto simp add: distinct_update)
qed

subsection \<open>The first loop of the sweep\<close>

lemma check_entry_cases:
  assumes "check_entry env cfg k d w = (Inr (d', ids), w')"
  shows "(ids = [] \<and> d' = d) \<or>
         (set ids = {k} \<and> (\<exists>st. st \<noteq> Pending \<and> d' = set_status st d))"
  using assms
  unfolding check_entry_def Let_def
  by (auto split: prod.splits sum.splits if_splits simp add: set_status_def)

lemma status_of_set_status [simp]: "status_of (set_status st d) = st"
  by (simp add: status_of_def set_status_def)

lemma check_all_keys:
  "check_all env cfg P w = (w', ids, P') \<Longrightarrow> map fst P' = map fst P \<and> set ids \<subseteq> fst ` set P"
proof (induction P arbitrary: w w' ids P')
  case Nil
  then show ?case by simp
next
  case (Cons p P)
  obtain k d where p: "p = (k, d)" by (cases p)
  obtain r w1 where e: "check_entry env cfg k d w = (r, w1)" by (cases "check_entry env cfg k d w")
  obtain w2 ids2 P2 where a: "check_all env cfg P w1 = (w2, ids2, P2)"
    by (metis prod_cases3)
  from Cons.IH[OF a] have ih: "map fst P2 = map fst P" "set ids2 \<subseteq> fst ` set P" by auto
  show ?case
  proof (cases r)
    case (Inl err)
    with Cons.prems p e a ih show ?thesis by auto
  next
    case (Inr x)
    obtain d1 ids1 where x: "x = (d1, ids1)" by (cases x)
    from check_entry_cases[of env cfg k d w d1 ids1 w1] e Inr x
    have "set ids1 \<subseteq> {k}" by auto
    with Cons.prems p e a ih Inr x show ?thesis by auto
  qed
qed

lemma check_all_entries:
  assumes "distinct (map fst P)" and "check_all env cfg P w = (w', ids, P')"
    and "(k, d') \<in> set P'"
  shows "if k \<in> set ids then (\<exists>d st. (k, d) \<in> set P \<and> st \<noteq> Pending \<and> d' = set_status st d)
         else (k, d') \<in> set P"
  using assms
proof (induction P arbitrary: w w' ids P')
  case Nil
  then show ?case by simp
next
  case (Cons p P)
  obtain k0 d0 where p: "p = (k0, d0)" by (cases p)
  obtain r w1 where e: "check_entry env cfg k0 d0 w = (r, w1)"
    by (cases "check_entry env cfg k0 d0 w")
  obtain w2 ids2 P2 where a: "check_all env cfg P w1 = (w2, ids2, P2)"
    by (metis prod_cases3)
  from check_all_keys[OF a] have keys2: "map fst P2 = map fst P" "set ids2 \<subseteq> fst ` set P"
    by auto
  from Cons.prems(1) p have fresh: "k0 \<notin> fst ` set P" and dist: "distinct (map fst P)"
    by auto
  from keys2(1) have same: "fst ` set P2 = fst ` set P"
    by (metis set_map)
  show ?case
  proof (cases r)
    case (Inl err)
    with Cons.prems(2) p e a have res: "ids = ids2" "P' = (k0, d0) # P2" by auto
    show ?thesis
    proof (cases "(k, d') = (k0, d0)")
      case True
      with fresh keys2(2) res show ?thesis using p by auto
    next
      case False
      with Cons.prems(3) res have "(k, d') \<in> set P2" by auto
      from Cons.IH[OF dist a this] res show ?thesis by (fastforce split: if_splits)
    qed
  next
    case (Inr x)
    obtain d1 ids1 where x: "x = (d1, ids1)" by (cases x)
    with Cons.prems(2) p e a Inr have res: "ids = ids1 @ ids2" "P' = (k0, d1) # P2" by auto
    from check_entry_cases[of env cfg k0 d0 w d1 ids1 w1] e Inr x
    have ce: "(ids1 = [] \<and> d1 = d0) \<or>
         (set ids1 = {k0} \<and> (\<exists>st. st \<noteq> Pending \<and> d1 = set_status st d0))" by simp
    show ?thesis
    proof (cases "k = k0")
      case True
      have "k0 \<notin> fst ` set P2" using same fresh by simp
      then have "(k0, d') \<notin> set P2" by force
      with True Cons.prems(3) res have "d' = d1" by auto
      with True ce fresh keys2(2) res p show ?thesis by (fastforce split: if_splits)
    next
      case False
      with Cons.prems(3) res have m: "(k, d') \<in> set P2" by auto
      from ce False have "k \<notin> set ids1" by auto
      with Cons.IH[OF dist a m] res show ?thesis by (fastforce split: if_splits)
    qed
  qed
qed

subsection \<open>The ledger invariant is kept by every operation\<close>

lemma ledger_inv_initial: "ledger_inv initial_agent"
  by (simp add: ledger_inv_def initial_agent_def keys_def)

lemma ledger_inv_insert:
  assumes "ledger_inv s" and "status_of d = Pending"
  shows "ledger_inv (s\<lparr>issued := Suc (issued s),
           pending_transactions := AList.update (issued s) d (pending_transactions s)\<rparr>)"
proof -
  from assms(1) have "issued s \<notin> fst ` set (pending_transactions s)"
    and c: "issued s \<notin> fst ` set (completed_transactions s)"
    unfolding ledger_inv_def keys_def by (metis UnI1 UnI2 lessThan_iff less_irrefl)+
  then have upd: "AList.update (issued s) d (pending_transactions s)
                  = pending_transactions s @ [(issued s, d)]"
    by (simp add: update_fresh)
  from assms c show ?thesis
    unfolding ledger_inv_def keys_def upd
    by (auto simp add: lessThan_Suc image_Un)
qed

lemma ledger_inv_sweep:
  assumes "ledger_inv s" and "check_pending_transactions env cfg (s, w) = (s', w')"
  shows "ledger_inv s'"
proof -
  obtain w1 ids P where a: "check_all env cfg (pending_transactions s) w = (w1, ids, P)"
    by (metis prod_cases3)
  let ?C = "completed_transactions s"
  from assms(2) a have p': "pending_transactions s' = fst (move_completed ids (P, ?C))"
    and c': "completed_transactions s' = snd (move_completed ids (P, ?C))"
    and i': "issued s' = issued s"
    unfolding check_pending_transactions_def by (auto split: prod.splits)
  from assms(1) have dP0: "distinct (map fst (pending_transactions s))"
    and dC: "distinct (map fst ?C)"
    and disj: "fst ` set (pending_transactions s) \<inter> fst ` set ?C = {}"
    and un: "fst ` set (pending_transactions s) \<union> fst ` set ?C = {..<issued s}"
    and stP: "\<forall>(k, d) \<in> set (pending_transactions s). status_of d = Pending"
    and stC: "\<forall>(k, d) \<in> set ?C. status_of d \<noteq> Pending"
    unfolding ledger_inv_def keys_def by auto
  from check_all_keys[OF a] have kP: "map fst P = map fst (pending_transactions s)"
    and sub: "set ids \<subseteq> fst ` set (pending_transactions s)" by auto
  from kP have kP': "fst ` set P = fst ` set (pending_transactions s)" by (metis set_map)
  from kP dP0 have dP: "distinct (map fst P)" by simp
  have pend: "pending_transactions s' = filter (\<lambda>p. fst p \<notin> set ids) P"
    by (simp add: p' move_completed_pending)
  have 1: "distinct (map fst (pending_transactions s'))"
    unfolding pend using dP by (simp add: distinct_map_filter)
  have 2: "distinct (map fst (completed_transactions s'))"
    unfolding c' using dC by (rule move_completed_distinct)
  have kc: "fst ` set (completed_transactions s') = fst ` set ?C \<union> (set ids \<inter> fst ` set P)"
    unfolding c' by (rule move_completed_keys)
  have kp: "fst ` set (pending_transactions s') = fst ` set P - set ids"
    unfolding pend by auto
  have 3: "fst ` set (pending_transactions s') \<inter> fst ` set (completed_transactions s') = {}"
    unfolding kc kp kP' using disj by auto
  have 4: "fst ` set (pending_transactions s') \<union> fst ` set (completed_transactions s')
           = {..<issued s'}"
    unfolding kc kp kP' i' using un by auto
  have 5: "\<forall>(k, d) \<in> set (pending_transactions s'). status_of d = Pending"
  proof clarify
    fix k d assume "(k, d) \<in> set (pending_transactions s')"
    then have "(k, d) \<in> set P" "k \<notin> set ids" unfolding pend by auto
    with check_all_entries[OF dP0 a, of k d] have "(k, d) \<in> set (pending_transactions s)"
      by simp
    with stP show "status_of d = Pending" by auto
  qed
  have 6: "\<forall>(k, d) \<in> set (completed_transactions s'). status_of d \<noteq> Pending"
  proof clarify
    fix k d assume m: "(k, d) \<in> set (completed_transactions s')" and pd: "status_of d = Pending"
    from m 2 have "map_of (completed_transactions s') k = Some d" by simp
    then have "(if k \<in> set ids \<and> map_of P k \<noteq> None then map_of P k else map_of ?C k) = Some d"
      unfolding c' by (simp add: move_completed_map)
    then consider "k \<in> set ids" "map_of P k = Some d" | "map_of ?C k = Some d"
      by (auto split: if_splits)
    then show False
    proof cases
      case 1
      then have "(k, d) \<in> set P" by (simp add: map_of_SomeD)
      with check_all_entries[OF dP0 a, of k d] 1 pd show False by auto
    next
      case 2
      then have "(k, d) \<in> set ?C" by (simp add: map_of_SomeD)
      with stC pd show False by auto
    qed
  qed
  from 1 2 3 4 5 6 show ?thesis unfolding ledger_inv_def keys_def by simp
qed

lemma stop_all_append:
  "distinct (map fst P) \<Longrightarrow> fst ` set P \<inter> fst ` set C = {} \<Longrightarrow>
     stop_all P C = C @ map (\<lambda>(k, d). (k, set_status Stopped d)) P"
proof (induction P arbitrary: C)
  case Nil
  then show ?case by simp
next
  case (Cons p P)
  obtain k d where p: "p = (k, d)" by (cases p)
  from Cons.prems p have fresh: "k \<notin> fst ` set C" by auto
  then have upd: "AList.update k (set_status Stopped d) C = C @ [(k, set_status Stopped d)]"
    by (rule update_fresh)
  from Cons.prems p have "distinct (map fst P)"
    and "fst ` set P \<inter> fst ` set (C @ [(k, set_status Stopped d)]) = {}"
    by auto
  from Cons.IH[OF this] p upd show ?case by simp
qed

lemma ledger_inv_stop:
  assumes "ledger_inv s" and "emergency_stop_funding env (s, w) = (out, s', w')"
  shows "ledger_inv s'"
proof -
  from assms(1) have d: "distinct (map fst (pending_transactions s))"
    and disj: "fst ` set (pending_transactions s) \<inter> fst ` set (completed_transactions s) = {}"
    unfolding ledger_inv_def keys_def by auto
  from assms(2) have s': "s' = s\<lparr>pending_transactions := [],
      completed_transactions := completed_transactions s @
         map (\<lambda>(k, d). (k, set_status Stopped d)) (pending_transactions s)\<rparr>"
    unfolding emergency_stop_funding_def Let_def
    by (auto split: prod.splits simp add: stop_all_append[OF d disj])
  let ?Q = "map (\<lambda>(k, d). (k, set_status Stopped d)) (pending_transactions s)"
  have m: "map fst ?Q = map fst (pending_transactions s)"
    by (simp add: comp_def case_prod_unfold)
  then have i: "fst ` set ?Q = fst ` set (pending_transactions s)"
    by (metis set_map)
  have q: "\<forall>(k, d) \<in> set ?Q. status_of d \<noteq> Pending"
    by auto
  from assms(1) have 2: "distinct (map fst (completed_transactions s @ ?Q))"
    unfolding ledger_inv_def keys_def map_append m distinct_append by auto
  from assms(1) have 4: "fst ` set (completed_transactions s @ ?Q) = {..<issued s}"
    unfolding ledger_inv_def keys_def set_append image_Un i by auto
  from assms(1) q have 6: "\<forall>(k, d) \<in> set (completed_transactions s @ ?Q). status_of d \<noteq> Pending"
    unfolding ledger_inv_def set_append by blast
  from 2 4 6 show ?thesis
    unfolding ledger_inv_def keys_def s' by simp
qed

lemma reachable_ledger_inv: "reachable env cfg s \<Longrightarrow> ledger_inv s"
proof (induction rule: reachable.induct)
  case fresh
  show ?case by (rule ledger_inv_initial)
next
  case (message s m w out s' w')
  from process_message_cases[OF message.hyps(2)] message.IH show ?case
    by (cases out) (auto intro!: ledger_inv_insert simp add: status_of_def)
next
  case (funding s ev w r s' w')
  from distribute_funding_cases[OF funding.hyps(2)] funding.IH show ?case
    by (auto intro!: ledger_inv_insert simp add: status_of_def)
next
  case (sweep s w s' w')
  then show ?case by (auto intro: ledger_inv_sweep)
next
  case (stop s w out s' w')
  then show ?case by (auto intro: ledger_inv_stop)
qed

subsection \<open>The sweep at one entry of the pending partition\<close>

lemma check_all_append:
  "check_all env cfg (xs @ ys) w =
     (case check_all env cfg xs w of
        (w1, ids1, xs') \<Rightarrow>
          (case check_all env cfg ys w1 of
             (w2, ids2, ys') \<Rightarrow> (w2, ids1 @ ids2, xs' @ ys')))"
proof (induction xs arbitrary: w)
  case Nil
  show ?case by (simp split: prod.splits)
next
  case (Cons p xs)
  obtain k d where p: "p = (k, d)" by (cases p)
  show ?case
    unfolding p by (simp add: Cons.IH split: prod.splits sum.splits)
qed

lemma move_completed_skip:
  "k \<notin> set ids \<Longrightarrow>
     move_completed ids (xs @ (k, d) # ys, C) =
       (filter (\<lambda>p. fst p \<notin> set ids) xs @ (k, d) # filter (\<lambda>p. fst p \<notin> set ids) ys,
        snd (move_completed ids (xs @ ys, C)))"
proof (induction ids arbitrary: xs ys C)
  case Nil
  show ?case by simp
next
  case (Cons i ids)
  then have ne: "i \<noteq> k" and notin: "k \<notin> set ids" by auto
  have look: "map_of (xs @ (k, d) # ys) i = map_of (xs @ ys) i"
    using ne by (simp add: map_add_def split: option.splits)
  have del: "AList.delete i (xs @ (k, d) # ys) = AList.delete i xs @ (k, d) # AList.delete i ys"
    using ne by (simp add: delete_filter)
  have del': "AList.delete i (xs @ ys) = AList.delete i xs @ AList.delete i ys"
    by (simp add: delete_filter)
  have f: "filter (\<lambda>p. fst p \<notin> set ids) (AList.delete i zs) = filter (\<lambda>p. fst p \<notin> set (i # ids)) zs"
    for zs :: "(nat \<times> tx_data) list"
    by (simp add: delete_filter conj_commute)
  show ?case
  proof (cases "map_of (xs @ ys) i")
    case None
    then have "i \<notin> fst ` set xs" and "i \<notin> fst ` set ys"
      by (simp_all add: map_of_eq_None_iff map_add_None)
    then have fx: "filter (\<lambda>p. fst p \<notin> set (i # ids)) xs = filter (\<lambda>p. fst p \<notin> set ids) xs"
      and fy: "filter (\<lambda>p. fst p \<notin> set (i # ids)) ys = filter (\<lambda>p. fst p \<notin> set ids) ys"
      by (auto intro!: filter_cong)
    from None look have l1: "map_of (xs @ (k, d) # ys) i = None" by (simp only:)
    have A: "move_completed (i # ids) (xs @ (k, d) # ys, C)
             = move_completed ids (xs @ (k, d) # ys, C)"
      by (simp only: move_completed.simps l1 option.case)
    have B: "move_completed (i # ids) (xs @ ys, C) = move_completed ids (xs @ ys, C)"
      by (simp only: move_completed.simps None option.case)
    show ?thesis
      unfolding A B fx fy by (rule Cons.IH[OF notin])
  next
    case (Some x)
    with look have l1: "map_of (xs @ (k, d) # ys) i = Some x" by (simp only:)
    have A: "move_completed (i # ids) (xs @ (k, d) # ys, C)
             = move_completed ids (AList.delete i xs @ (k, d) # AList.delete i ys, AList.update i x C)"
      by (simp only: move_completed.simps l1 option.case del)
    have B: "move_completed (i # ids) (xs @ ys, C)
             = move_completed ids (AList.delete i xs @ AList.delete i ys, AList.update i x C)"
      by (simp only: move_completed.simps Some option.case del')
    show ?thesis
      unfolding A B Cons.IH[OF notin] f by (rule refl)
  qed
qed

lemma set_status_twice [simp]: "set_status a (set_status b d) = set_status a d"
  by (simp add: set_status_def)

lemma created_at_set_status [simp]: "created_at (set_status a d) = created_at d"
  by (simp add: set_status_def)

lemma check_entry_timeout:
  assumes "check_hashes env (transaction_results d) (True, False) w = (Inr flags, w1)"
    and "utcnow env w1 = (now, w2)"
    and "funding_timeout cfg < now - created_at d"
  shows "\<exists>ids. check_entry env cfg k d w = (Inr (set_status Timeout d, ids), w2) \<and> k \<in> set ids"
  using assms unfolding check_entry_def Let_def
  by (cases flags) auto

section \<open>Partitions of the ledger\<close>

text \<open>
  Claim C4. At every operation boundary of the agent (after any complete run of message
  processing, of a direct funding call, of a reconciliation sweep or of the emergency stop,
  starting from the empty ledger) no transaction id is in both partitions and the ids in
  the two partitions together are exactly the ids issued so far, so every recorded id is in
  exactly one partition. A sweep started at such a boundary, in any state of the world,
  ends with the same ids, again in exactly one partition each, with every entry left
  pending still \<open>Pending\<close> and every completed entry in a terminal status: no entry is
  visible in both partitions or in neither.
\<close>

theorem partitions_disjoint_and_exhaustive:
  assumes "reachable env cfg s"
  shows "keys (pending_transactions s) \<inter> keys (completed_transactions s) = {} \<and>
         keys (pending_transactions s) \<union> keys (completed_transactions s) = {..<issued s} \<and>
         (\<forall>w. let s' = fst (check_pending_transactions env cfg (s, w)) in
            keys (pending_transactions s') \<inter> keys (completed_transactions s') = {} \<and>
            keys (pending_transactions s') \<union> keys (completed_transactions s')
              = keys (pending_transactions s) \<union> keys (completed_transactions s) \<and>
            (\<forall>(k, d) \<in> set (pending_transactions s'). status_of d = Pending) \<and>
            (\<forall>(k, d) \<in> set (completed_transactions s'). status_of d \<noteq> Pending))"
proof -
  from assms have inv: "ledger_inv s" by (rule reachable_ledger_inv)
  have "ledger_inv (fst (check_pending_transactions env cfg (s, w)))"
    and "issued (fst (check_pending_transactions env cfg (s, w))) = issued s" for w
  proof -
    obtain s' w' where c: "check_pending_transactions env cfg (s, w) = (s', w')"
      by (cases "check_pending_transactions env cfg (s, w)")
    from ledger_inv_sweep[OF inv c] c
    show "ledger_inv (fst (check_pending_transactions env cfg (s, w)))" by simp
    show "issued (fst (check_pending_transactions env cfg (s, w))) = issued s"
      unfolding check_pending_transactions_def by (simp split: prod.splits)
  qed
  with inv show ?thesis
    unfolding ledger_inv_def Let_def by simp
qed

theorem partitions_disjoint_and_exhaustive_witness:
  "reachable demo_env default_config swept_agent \<and>
   keys (pending_transactions swept_agent) = {} \<and>
   keys (completed_transactions swept_agent) = {0} \<and>
   keys (pending_transactions swept_agent) \<inter> keys (completed_transactions swept_agent) = {} \<and>
   keys (pending_transactions swept_agent) \<union> keys (completed_transactions swept_agent)
     = {..<issued swept_agent}"
proof -
  have "process_message demo_env default_config (Some fire_event) (initial_agent, 0)
        = (fst (process_message demo_env default_config (Some fire_event) (initial_agent, 0)),
           funded_agent,
           snd (snd (process_message demo_env default_config (Some fire_event) (initial_agent, 0))))"
    by (simp add: funded_agent_def)
  from reachable.message[OF reachable.fresh this]
  have f: "reachable demo_env default_config funded_agent" .
  have "check_pending_transactions demo_env default_config (funded_agent, 10)
        = (swept_agent, snd (check_pending_transactions demo_env default_config (funded_agent, 10)))"
    by (simp add: swept_agent_def)
  from reachable.sweep[OF f this]
  have r: "reachable demo_env default_config swept_agent" .
  have p: "map fst (pending_transactions swept_agent) = []"
    and c: "map fst (completed_transactions swept_agent) = [0]"
    by code_simp+
  have "keys (pending_transactions swept_agent) = {}"
    and "keys (completed_transactions swept_agent) = {0}"
    unfolding keys_def using p c by (metis set_map list.set set_empty2 list.simps(15))+
  with r partitions_disjoint_and_exhaustive[OF r] show ?thesis by simp
qed

text \<open>
  Claim C5. For every ledger whose pending partition holds N entries (a dict, sharing no
  id with the completed partition, as at every operation boundary), the emergency stop
  leaves the pending partition empty, appends the N entries to the completed partition,
  which so grows by exactly N, gives every moved entry the status \<open>Stopped\<close>, and reports
  N as the number of stopped transactions.
\<close>

theorem emergency_stop_moves_all_pending:
  assumes "distinct (map fst (pending_transactions s))"
    and "keys (pending_transactions s) \<inter> keys (completed_transactions s) = {}"
  shows "(case emergency_stop_funding env (s, w) of
           (out, s', w') \<Rightarrow>
             pending_transactions s' = [] \<and>
             completed_transactions s' =
               completed_transactions s @
               map (\<lambda>(k, d). (k, set_status Stopped d)) (pending_transactions s) \<and>
             length (completed_transactions s') =
               length (completed_transactions s) + length (pending_transactions s) \<and>
             (\<forall>(k, d) \<in> set (pending_transactions s).
                map_of (completed_transactions s') k = Some (set_status Stopped d) \<and>
                status_of (set_status Stopped d) = Stopped) \<and>
             out = Emergency_stop_activated (length (pending_transactions s)) (fst (utcnow env w)))"
proof -
  let ?P = "pending_transactions s" and ?C = "completed_transactions s"
  let ?Q = "map (\<lambda>(k, d). (k, set_status Stopped d)) ?P"
  from assms have st: "stop_all ?P ?C = ?C @ ?Q"
    unfolding keys_def by (rule stop_all_append)
  have mq: "map fst ?Q = map fst ?P"
    by (simp add: comp_def case_prod_unfold)
  have look: "map_of (?C @ ?Q) k = Some (set_status Stopped d)" if m: "(k, d) \<in> set ?P" for k d
  proof -
    from m have "k \<in> fst ` set ?P" by force
    with assms(2) have "k \<notin> fst ` set ?C" unfolding keys_def by auto
    then have none: "map_of ?C k = None" by (simp add: map_of_eq_None_iff)
    from m have inq: "(k, set_status Stopped d) \<in> set ?Q" by force
    from assms(1) mq have "distinct (map fst ?Q)" by metis
    with inq have "map_of ?Q k = Some (set_status Stopped d)"
      by (metis map_of_eq_Some_iff)
    with none show ?thesis by (simp add: map_add_def)
  qed
  show ?thesis
    using look
    by (auto simp add: emergency_stop_funding_def Let_def st split: prod.splits)
qed

theorem emergency_stop_moves_all_pending_witness:
  "length (pending_transactions sample_agent) = 3 \<and>
   fst (emergency_stop_funding demo_env (sample_agent, 10)) = Emergency_stop_activated 3 10 \<and>
   pending_transactions (fst (snd (emergency_stop_funding demo_env (sample_agent, 10)))) = [] \<and>
   length (completed_transactions (fst (snd (emergency_stop_funding demo_env (sample_agent, 10)))))
     = 4"
proof -
  have d: "distinct (map fst (pending_transactions sample_agent))"
    by (simp add: sample_agent_def)
  have i: "keys (pending_transactions sample_agent) \<inter> keys (completed_transactions sample_agent) = {}"
    by (simp add: sample_agent_def keys_def)
  have l: "length (pending_transactions sample_agent) = 3"
    "length (completed_transactions sample_agent) = 1"
    by (simp_all add: sample_agent_def)
  have u: "fst (utcnow demo_env 10) = 10" by (simp add: demo_env_def)
  from emergency_stop_moves_all_pending[OF d i, of demo_env 10] l u
  show ?thesis by (auto split: prod.splits)
qed

section \<open>Reconciliation\<close>

text \<open>
  Claim C9. For every dict of pending entries and every sweep in which the check of one
  entry raises (a status query fails, or its answer has no status), the sweep does not
  raise and is not cut short: the entries before the faulted one are checked exactly as a
  sweep over them alone would check them, the entries after it exactly as a sweep over them
  alone would, continued from the world the failed check left; the faulted entry is not
  named for completion, stays in the pending partition with its data and its status as
  they were, and the completed partition is what the other entries alone make it.
\<close>

theorem sweep_isolates_faulted_entry:
  assumes "distinct (map fst (pending_transactions s))"
    and "pending_transactions s = xs @ (k, d) # ys"
    and "check_all env cfg xs w = (w1, ids1, xs')"
    and "check_entry env cfg k d w1 = (Inl e, w2)"
    and "check_all env cfg ys w2 = (w3, ids3, ys')"
  shows "check_all env cfg (pending_transactions s) w = (w3, ids1 @ ids3, xs' @ (k, d) # ys') \<and>
         k \<notin> set (ids1 @ ids3) \<and>
         check_pending_transactions env cfg (s, w) =
           (s\<lparr>pending_transactions :=
                 filter (\<lambda>p. fst p \<notin> set (ids1 @ ids3)) xs' @ (k, d) #
                 filter (\<lambda>p. fst p \<notin> set (ids1 @ ids3)) ys',
               completed_transactions :=
                 snd (move_completed (ids1 @ ids3) (xs' @ ys', completed_transactions s))\<rparr>,
            w3)"
proof -
  have all: "check_all env cfg (pending_transactions s) w
             = (w3, ids1 @ ids3, xs' @ (k, d) # ys')"
    unfolding assms(2) check_all_append using assms(3-5) by simp
  from check_all_keys[OF assms(3)] check_all_keys[OF assms(5)]
  have "set ids1 \<subseteq> fst ` set xs" and "set ids3 \<subseteq> fst ` set ys" by auto
  moreover from assms(1,2) have "k \<notin> fst ` set xs" and "k \<notin> fst ` set ys" by auto
  ultimately have notin: "k \<notin> set (ids1 @ ids3)" by auto
  show ?thesis
    unfolding check_pending_transactions_def Let_def
    using all notin by (simp add: move_completed_skip[OF notin])
qed

theorem sweep_isolates_faulted_entry_witness:
  "check_entry flaky_env default_config 2 (sample_tx 2 Pending [\<lparr>transaction_hash = Some ''gov''\<rparr>]) 10
     = (Inl (Fault ''status query failed''), 10) \<and>
   statuses
     (pending_transactions (fst (check_pending_transactions flaky_env default_config (sample_agent, 10))))
     = [(2, Pending)] \<and>
   statuses
     (completed_transactions (fst (check_pending_transactions flaky_env default_config (sample_agent, 10))))
     = [(0, Confirmed), (1, Confirmed), (3, Confirmed)]"
proof -
  let ?e1 = "(1, sample_tx 1 Pending [\<lparr>transaction_hash = Some ''ngo''\<rparr>])"
  let ?d2 = "sample_tx 2 Pending [\<lparr>transaction_hash = Some ''gov''\<rparr>]"
  let ?e3 = "(3, sample_tx 3 Pending [\<lparr>transaction_hash = Some ''ngo''\<rparr>])"
  have h1: "distinct (map fst (pending_transactions sample_agent))"
    by (simp add: sample_agent_def)
  have h2: "pending_transactions sample_agent = [?e1] @ (2, ?d2) # [?e3]"
    by (simp add: sample_agent_def)
  have h3: "check_all flaky_env default_config [?e1] 10 = (10, [1], [(1, set_status Confirmed (snd ?e1))])"
    by code_simp
  have h4: "check_entry flaky_env default_config 2 ?d2 10 = (Inl (Fault ''status query failed''), 10)"
    by code_simp
  have h5: "check_all flaky_env default_config [?e3] 10 = (10, [3], [(3, set_status Confirmed (snd ?e3))])"
    by code_simp
  have c: "completed_transactions sample_agent = [(0, sample_tx 0 Confirmed [\<lparr>transaction_hash = Some ''ngo''\<rparr>])]"
    by (simp add: sample_agent_def)
  from sweep_isolates_faulted_entry[OF h1 h2 h3 h4 h5] h4 show ?thesis
    by (simp add: c statuses_def status_of_def set_status_def sample_tx_def)
qed

lemma check_pending_transactions_eq:
  assumes "check_all env cfg (pending_transactions s) w = (w', ids, P)"
  shows "check_pending_transactions env cfg (s, w) =
           (s\<lparr>pending_transactions := filter (\<lambda>p. fst p \<notin> set ids) P,
               completed_transactions := snd (move_completed ids (P, completed_transactions s))\<rparr>,
            w')"
  using assms move_completed_pending[of ids P "completed_transactions s"]
  by (auto simp add: check_pending_transactions_def split: prod.splits)

text \<open>A sweep over an old entry whose status query raises.\<close>

theorem timeout_skipped_when_check_faults:
  "funding_timeout default_config
     < 1000 - created_at (sample_tx 2 Pending [\<lparr>transaction_hash = Some ''gov''\<rparr>]) \<and>
   pending_transactions sample_agent ! 1
     = (2, sample_tx 2 Pending [\<lparr>transaction_hash = Some ''gov''\<rparr>]) \<and>
   statuses
     (pending_transactions
        (fst (check_pending_transactions flaky_env default_config (sample_agent, 1000))))
     = [(2, Pending)] \<and>
   statuses
     (completed_transactions
        (fst (check_pending_transactions flaky_env default_config (sample_agent, 1000))))
     = [(0, Confirmed), (1, Timeout), (3, Timeout)]"
  by code_simp

text \<open>
  Claim C3, as the code has it. For every pending entry whose status checks in a sweep run
  to their end without raising, whatever flags they reach (all confirmed, some failed, or
  neither), if the clock read after them is later than the entry's \<open>created_at\<close> by more
  than the funding timeout, the sweep leaves the entry out of the pending partition and in
  the completed partition with status \<open>Timeout\<close>: the timeout replaces the confirmed or
  failed determination of the same sweep.

  Without the proviso the claim fails: the timeout test is inside the \<^verbatim>\<open>try\<close> block, so
  when a status query raises it is skipped with the rest of the block. In the
  evaluation above the entry 2 is 1000 seconds old under a timeout of 300 and stays
  \<open>Pending\<close> in the pending partition.
\<close>

theorem timeout_overrides_completed_check:
  assumes "distinct (map fst (pending_transactions s))"
    and "pending_transactions s = xs @ (k, d) # ys"
    and "check_all env cfg xs w = (w1, ids1, xs')"
    and "check_hashes env (transaction_results d) (True, False) w1 = (Inr flags, w2)"
    and "utcnow env w2 = (now, w3)"
    and "funding_timeout cfg < now - created_at d"
  shows "map_of (pending_transactions (fst (check_pending_transactions env cfg (s, w)))) k = None \<and>
         map_of (completed_transactions (fst (check_pending_transactions env cfg (s, w)))) k
           = Some (set_status Timeout d) \<and>
         status_of (set_status Timeout d) = Timeout"
proof -
  from check_entry_timeout[OF assms(4-6), of k]
  obtain ids2 where e: "check_entry env cfg k d w1 = (Inr (set_status Timeout d, ids2), w3)"
    and kin: "k \<in> set ids2" by blast
  obtain w4 ids3 ys' where r: "check_all env cfg ys w3 = (w4, ids3, ys')"
    by (metis prod_cases3)
  let ?ids = "ids1 @ ids2 @ ids3" and ?P = "xs' @ (k, set_status Timeout d) # ys'"
  have all: "check_all env cfg (pending_transactions s) w = (w4, ?ids, ?P)"
    unfolding assms(2) check_all_append using assms(3) e r by simp
  from check_all_keys[OF assms(3)] have "map fst xs' = map fst xs" by simp
  then have "fst ` set xs' = fst ` set xs" by (metis set_map)
  with assms(1,2) have "k \<notin> fst ` set xs'" by auto
  then have "map_of xs' k = None" by (simp add: map_of_eq_None_iff)
  then have look: "map_of ?P k = Some (set_status Timeout d)"
    by (simp add: map_add_def)
  from kin have kin': "k \<in> set ?ids" by simp
  have p: "pending_transactions (fst (check_pending_transactions env cfg (s, w)))
           = filter (\<lambda>p. fst p \<notin> set ?ids) ?P"
    and c: "completed_transactions (fst (check_pending_transactions env cfg (s, w)))
           = snd (move_completed ?ids (?P, completed_transactions s))"
    unfolding check_pending_transactions_eq[OF all] by simp_all
  have "k \<notin> fst ` set (filter (\<lambda>p. fst p \<notin> set ?ids) ?P)"
    using kin' by auto
  then have 1: "map_of (filter (\<lambda>p. fst p \<notin> set ?ids) ?P) k = None"
    by (metis map_of_eq_None_iff)
  have 2: "map_of (snd (move_completed ?ids (?P, completed_transactions s))) k
           = Some (set_status Timeout d)"
    unfolding move_completed_map using kin' look by simp
  from 1 2 show ?thesis unfolding p c by simp
qed

theorem timeout_overrides_completed_check_witness:
  "check_hashes demo_env (transaction_results (sample_tx 1 Pending [\<lparr>transaction_hash = Some ''ngo''\<rparr>]))
     (True, False) 1000 = (Inr (True, False), 1000) \<and>
   map_of (pending_transactions
      (fst (check_pending_transactions demo_env default_config (sample_agent, 1000)))) 1 = None \<and>
   map_of (completed_transactions
      (fst (check_pending_transactions demo_env default_config (sample_agent, 1000)))) 1
     = Some (sample_tx 1 Timeout [\<lparr>transaction_hash = Some ''ngo''\<rparr>])"
proof -
  let ?d1 = "sample_tx 1 Pending [\<lparr>transaction_hash = Some ''ngo''\<rparr>]"
  have h1: "distinct (map fst (pending_transactions sample_agent))"
    by (simp add: sample_agent_def)
  have h2: "pending_transactions sample_agent
            = [] @ (1, ?d1) # [(2, sample_tx 2 Pending [\<lparr>transaction_hash = Some ''gov''\<rparr>]),
                               (3, sample_tx 3 Pending [\<lparr>transaction_hash = Some ''ngo''\<rparr>])]"
    by (simp add: sample_agent_def)
  have h3: "check_all demo_env default_config [] 1000 = (1000, [], [])"
    by simp
  have h4: "check_hashes demo_env (transaction_results ?d1) (True, False) 1000
            = (Inr (True, False), 1000)"
    by (simp add: sample_tx_def demo_env_def)
  have h5: "utcnow demo_env 1000 = (1000, 1000)"
    by (simp add: demo_env_def)
  have h6: "funding_timeout default_config < 1000 - created_at ?d1"
    by (simp add: default_config_def sample_tx_def)
  have t: "set_status Timeout ?d1 = sample_tx 1 Timeout [\<lparr>transaction_hash = Some ''ngo''\<rparr>]"
    by (simp add: set_status_def sample_tx_def)
  from timeout_overrides_completed_check[OF h1 h2 h3 h4 h5 h6] h4 t show ?thesis
    by simp
qed

section \<open>Partial submission\<close>

text \<open>
  Claim C2 asks that a pending disbursement one of whose transfers was not accepted at
  submission (its result carries no transfer reference) be judged failed by the sweep, and
  never confirmed while a reference is missing. The sweep reads only the results that
  carry a reference: here the fire event is funded through a gateway that accepts the
  first of the two transfers and not the second, the accepted transfer reports
  \<^verbatim>\<open>confirmed\<close>, and the first sweep moves the disbursement to the completed partition
  with the status \<open>Confirmed\<close>.
\<close>

theorem partial_submission_judged_confirmed:
  "map transaction_hash (transaction_results (snd (hd (pending_transactions (fst partially_submitted)))))
     = [Some ''ngo'', None] \<and>
   statuses (pending_transactions (fst partially_submitted)) = [(0, Pending)] \<and>
   statuses (pending_transactions
     (fst (check_pending_transactions partial_env default_config partially_submitted))) = [] \<and>
   statuses (completed_transactions
     (fst (check_pending_transactions partial_env default_config partially_submitted)))
     = [(0, Confirmed)]"
  by code_simp

section \<open>Statistics\<close>

lemma reachable_funded_agent: "reachable demo_env default_config funded_agent"
proof -
  have "process_message demo_env default_config (Some fire_event) (initial_agent, 0)
        = (fst (process_message demo_env default_config (Some fire_event) (initial_agent, 0)),
           funded_agent,
           snd (snd (process_message demo_env default_config (Some fire_event) (initial_agent, 0))))"
    by (simp add: funded_agent_def)
  from reachable.message[OF reachable.fresh this] show ?thesis .
qed

lemma reachable_swept_agent: "reachable demo_env default_config swept_agent"
proof -
  have "check_pending_transactions demo_env default_config (funded_agent, 10)
        = (swept_agent, snd (check_pending_transactions demo_env default_config (funded_agent, 10)))"
    by (simp add: swept_agent_def)
  from reachable.sweep[OF reachable_funded_agent this] show ?thesis .
qed

lemma reachable_stopped_agent: "reachable demo_env default_config stopped_agent"
proof -
  have "emergency_stop_funding demo_env (funded_agent, 10)
        = (fst (emergency_stop_funding demo_env (funded_agent, 10)), stopped_agent,
           snd (snd (emergency_stop_funding demo_env (funded_agent, 10))))"
    by (simp add: stopped_agent_def)
  from reachable.stop[OF reachable_funded_agent this] show ?thesis .
qed

lemma count_statuses_three:
  "count_statuses ds [(Confirmed, a), (Failed, b), (Timeout, c)] =
     [(Confirmed, a + length (filter (\<lambda>x. status_of x = Confirmed) ds)),
      (Failed, b + length (filter (\<lambda>x. status_of x = Failed) ds)),
      (Timeout, c + length (filter (\<lambda>x. status_of x = Timeout) ds))]"
proof (induction ds arbitrary: a b c)
  case Nil
  show ?case by simp
next
  case (Cons d ds)
  show ?case
    by (cases "status (funding_transaction d)") (simp_all add: Cons.IH status_of_def Let_def)
qed

lemma count_status_map_snd:
  "length (filter (\<lambda>x. status_of x = st) (map snd C)) = count_status st C"
  by (simp add: count_status_def filter_map comp_def case_prod_unfold)

lemma status_distribution_of_eq:
  "status_distribution_of s =
     [(Confirmed, count_status Confirmed (completed_transactions s)),
      (Failed, count_status Failed (completed_transactions s)),
      (Timeout, count_status Timeout (completed_transactions s))]"
  unfolding status_distribution_of_def count_statuses_three count_status_map_snd by simp

lemma count_status_total:
  "count_status Pending C + count_status Confirmed C + count_status Failed C
     + count_status Timeout C + count_status Stopped C = length C"
proof (induction C)
  case Nil
  show ?case by (simp add: count_status_def)
next
  case (Cons p C)
  obtain k d where p: "p = (k, d)" by (cases p)
  from Cons show ?case
    unfolding p by (cases "status_of d") (simp_all add: count_status_def)
qed

lemma count_status_Pending_none:
  "\<forall>(k, d) \<in> set C. status_of d \<noteq> Pending \<Longrightarrow> count_status Pending C = 0"
  by (induction C) (auto simp add: count_status_def)

lemma get_funding_stats_distribution:
  "get_funding_stats env s w = (Some st, w') \<Longrightarrow>
     status_distribution st = status_distribution_of s \<and>
     stats_completed_transactions st = length (completed_transactions s)"
  unfolding get_funding_stats_def Let_def
  by (auto split: prod.splits sum.splits)

text \<open>The statistics of an agent whose only disbursement was stopped.\<close>

theorem histogram_omits_stopped:
  "reachable demo_env default_config stopped_agent \<and>
   statuses (completed_transactions stopped_agent) = [(0, Stopped)] \<and>
   map_option status_distribution (fst (get_funding_stats demo_env stopped_agent 20))
     = Some [(Confirmed, 0), (Failed, 0), (Timeout, 0)] \<and>
   map_of (status_distribution_of stopped_agent) Stopped = None \<and>
   sum_list (map snd (status_distribution_of stopped_agent)) = 0 \<and>
   length (completed_transactions stopped_agent) = 1"
proof -
  have "statuses (completed_transactions stopped_agent) = [(0, Stopped)]"
    and "map_option status_distribution (fst (get_funding_stats demo_env stopped_agent 20))
     = Some [(Confirmed, 0), (Failed, 0), (Timeout, 0)]"
    and "map_of (status_distribution_of stopped_agent) Stopped = None"
    and "sum_list (map snd (status_distribution_of stopped_agent)) = 0"
    and "length (completed_transactions stopped_agent) = 1"
    by code_simp+
  with reachable_stopped_agent show ?thesis by simp
qed

text \<open>
  Claim C8, as the code has it. For every reachable ledger the status histogram of the
  statistics has exactly the keys \<open>Confirmed\<close>, \<open>Failed\<close> and \<open>Timeout\<close>, each with the
  number of completed entries of that status; an entry with status \<open>Stopped\<close> is not
  counted under any key, so the counts sum to the number of completed entries less the
  stopped ones. This is the histogram that the statistics operation returns whenever its
  gateway calls do not raise.

  The claim as stated, with a count for \<open>Stopped\<close> and counts summing to the size of the
  completed partition, fails after an emergency stop: in the evaluation above one entry
  is completed, it is \<open>Stopped\<close>, and the histogram is zero throughout.
\<close>

theorem histogram_counts_three_statuses:
  assumes "reachable env cfg s"
  shows "status_distribution_of s =
           [(Confirmed, count_status Confirmed (completed_transactions s)),
            (Failed, count_status Failed (completed_transactions s)),
            (Timeout, count_status Timeout (completed_transactions s))] \<and>
         sum_list (map snd (status_distribution_of s))
           + count_status Stopped (completed_transactions s)
           = length (completed_transactions s) \<and>
         (get_funding_stats env s w = (Some st, w') \<longrightarrow>
            status_distribution st = status_distribution_of s)"
proof -
  from reachable_ledger_inv[OF assms]
  have "\<forall>(k, d) \<in> set (completed_transactions s). status_of d \<noteq> Pending"
    unfolding ledger_inv_def by simp
  then have "count_status Pending (completed_transactions s) = 0"
    by (rule count_status_Pending_none)
  with count_status_total[of "completed_transactions s"]
  have "sum_list (map snd (status_distribution_of s))
           + count_status Stopped (completed_transactions s)
           = length (completed_transactions s)"
    unfolding status_distribution_of_eq by simp
  with get_funding_stats_distribution[of env s w st w'] show ?thesis
    by (simp add: status_distribution_of_eq)
qed

theorem histogram_counts_three_statuses_witness:
  "reachable demo_env default_config swept_agent \<and>
   get_funding_stats demo_env swept_agent 20
     = (Some \<lparr>stats_pending_transactions = 0, stats_completed_transactions = 1,
               pending_amount_eth = 0, completed_amount_eth = 1 / 100,
               total_amount_eth = 1 / 100,
               status_distribution = [(Confirmed, 1), (Failed, 0), (Timeout, 0)],
               account_balance_eth = 10, network_info = ''testnet'',
               last_updated = 20\<rparr>, 20) \<and>
   status_distribution_of swept_agent = [(Confirmed, 1), (Failed, 0), (Timeout, 0)] \<and>
   sum_list (map snd (status_distribution_of swept_agent))
     + count_status Stopped (completed_transactions swept_agent)
     = length (completed_transactions swept_agent)"
proof -
  let ?st = "\<lparr>stats_pending_transactions = 0, stats_completed_transactions = 1,
               pending_amount_eth = 0, completed_amount_eth = 1 / 100,
               total_amount_eth = 1 / 100,
               status_distribution = [(Confirmed, 1), (Failed, 0), (Timeout, 0)],
               account_balance_eth = 10, network_info = ''testnet'',
               last_updated = 20\<rparr>"
  have g: "get_funding_stats demo_env swept_agent 20 = (Some ?st, 20)"
    by code_simp
  note h = histogram_counts_three_statuses[OF reachable_swept_agent,
      where w = 20 and w' = 20 and st = ?st]
  from h g have "status_distribution ?st = status_distribution_of swept_agent"
    by blast
  then have d: "status_distribution_of swept_agent = [(Confirmed, 1), (Failed, 0), (Timeout, 0)]"
    by simp
  from h have "sum_list (map snd (status_distribution_of swept_agent))
     + count_status Stopped (completed_transactions swept_agent)
     = length (completed_transactions swept_agent)"
    by blast
  with reachable_swept_agent g d show ?thesis
    by blast
qed

section \<open>Faults while a message is processed\<close>

text \<open>A message whose event is well formed, processed while the balance query raises.\<close>

theorem balance_fault_reported_as_funding_failed:
  "get_balance offline_env 0 = (Inl (Fault ''node unreachable''), 0) \<and>
   process_message offline_env default_config (Some fire_event) (initial_agent, 0)
     = (Funding_failed, initial_agent, 0)"
  by code_simp

text \<open>
  Claim C6, as the code has it. \<^verbatim>\<open>process_message\<close> returns an outcome for every message
  and every behaviour of its collaborators. A fault of \<^verbatim>\<open>from_dict\<close> while the event is
  parsed gives the outcome \<open>Error\<close> with the description of the fault and touches neither
  the agent nor the world. A fault anywhere in the \<^verbatim>\<open>try\<close> block of
  \<^verbatim>\<open>distribute_funding\<close> (balance query, recipient lookup, recipient amounts, transfer
  submission, a missing attribute) is caught there and gives \<open>Funding_failed\<close>, not
  \<open>Error\<close>, unless the event has no \<^verbatim>\<open>event_id\<close> to put in the log line. Whenever the
  outcome is not \<open>Funding_initiated\<close> the agent is exactly as it was, so no half-built
  disbursement is left in the pending partition; when it is \<open>Funding_initiated\<close>, one
  complete entry with status \<open>Pending\<close> was stored under the id returned.

  The claim as stated, an \<open>Error\<close> outcome for every fault on the path, fails for the
  faults caught inside \<^verbatim>\<open>distribute_funding\<close>, as evaluated above.
\<close>

theorem process_message_fault_outcomes:
  assumes "process_message env cfg m (s, w) = (out, s', w')"
  shows "(case out of
            Funding_initiated tid a \<Rightarrow>
              (\<exists>ft results t. tid = issued s \<and> status ft = Pending \<and> total_amount ft = a \<and>
                 transaction_id ft = tid \<and>
                 s' = s\<lparr>issued := Suc (issued s),
                   pending_transactions :=
                     AList.update (issued s)
                      \<lparr>funding_transaction = ft, transaction_results = results,
                        created_at = t\<rparr> (pending_transactions s)\<rparr>)
          | _ \<Rightarrow> s' = s) \<and>
         (m = Some raw \<longrightarrow> from_dict env raw = Inl e \<longrightarrow> out = Error (str e) \<and> w' = w) \<and>
         (m = Some raw \<longrightarrow> from_dict env raw = Inr ev \<longrightarrow>
            fst (distribute_try env cfg ev (s, w)) = Inl e \<longrightarrow>
            out = (case event_id ev of None \<Rightarrow> Error ''event_id'' | Some eid \<Rightarrow> Funding_failed))"
proof -
  have 2: "out = Error (str e) \<and> w' = w" if "m = Some raw" and "from_dict env raw = Inl e"
    using that assms by (simp add: process_message_def)
  have 3: "out = (case event_id ev of None \<Rightarrow> Error ''event_id'' | Some eid \<Rightarrow> Funding_failed)"
    if h1: "m = Some raw" and h2: "from_dict env raw = Inr ev"
      and h3: "fst (distribute_try env cfg ev (s, w)) = Inl e"
  proof -
    obtain s1 w1 where "distribute_try env cfg ev (s, w) = (Inl e, s1, w1)"
      using h3 by (cases "distribute_try env cfg ev (s, w)") auto
    then have "distribute_funding env cfg ev (s, w) = (None, s1, w1)"
      by (simp add: distribute_funding_def)
    with h1 h2 assms show ?thesis
      by (auto simp add: process_message_def split: option.splits)
  qed
  from process_message_cases[OF assms] 2 3 show ?thesis by blast
qed

theorem process_message_fault_outcomes_witness:
  "process_message offline_env default_config (Some fire_event) (initial_agent, 0)
     = (Funding_failed, initial_agent, 0) \<and>
   from_dict offline_env fire_event = Inr fire_event \<and>
   fst (distribute_try offline_env default_config fire_event (initial_agent, 0))
     = Inl (Fault ''node unreachable'') \<and>
   process_message (offline_env\<lparr>from_dict := (\<lambda>r. Inl (KeyError ''disaster_type''))\<rparr>)
      default_config (Some fire_event) (initial_agent, 0)
     = (Error ''disaster_type'', initial_agent, 0)"
proof -
  have a: "process_message offline_env default_config (Some fire_event) (initial_agent, 0)
     = (Funding_failed, initial_agent, 0)"
    by code_simp
  have b: "from_dict offline_env fire_event = Inr fire_event"
    by (simp add: offline_env_def demo_env_def)
  have c: "fst (distribute_try offline_env default_config fire_event (initial_agent, 0))
     = Inl (Fault ''node unreachable'')"
    by code_simp
  have d: "process_message (offline_env\<lparr>from_dict := (\<lambda>r. Inl (KeyError ''disaster_type''))\<rparr>)
      default_config (Some fire_event) (initial_agent, 0)
     = (Error ''disaster_type'', initial_agent, 0)"
    by code_simp
  from process_message_fault_outcomes[OF a, where raw = fire_event and ev = fire_event
      and e = "Fault ''node unreachable''"] a b c d
  show ?thesis by simp
qed

section \<open>Bounds of the funding policy\<close>

lemma calculate_try_numeric:
  assumes "getattr (funding_recommendation ev) (Num (min_funding_amount cfg)) = Num r"
    and "getattr (verification_score ev) (Num 80) = Num v"
    and "getattr (human_impact_estimate ev) (Num 100) = Num h"
    and "original_event ev = Some oe"
  shows "calculate_try cfg ev =
           Inr (py_round (min (max_funding_amount cfg)
                  (max (min_funding_amount cfg) (raw_amount cfg r v h (disaster_type oe)))) 6)"
  using assms by (simp add: calculate_try_def Let_def)

text \<open>The first scenario of the specification: the raw amount is 0.0008 under a
  minimum of 0.01.\<close>

theorem below_minimum_event_is_funded:
  "raw_amount default_config 0 80 100 ''fire'' = 8 / 10000 \<and>
   raw_amount default_config 0 80 100 ''fire'' < min_funding_amount default_config \<and>
   calculate_funding_amount default_config fire_event = 1 / 100 \<and>
   map_option total_amount
     (fst (distribute_funding demo_env default_config fire_event (initial_agent, 0)))
     = Some (1 / 100) \<and>
   statuses (pending_transactions
     (fst (snd (distribute_funding demo_env default_config fire_event (initial_agent, 0)))))
     = [(0, Pending)]"
  by code_simp

text \<open>
  Claim C1, as the code has it. For every event whose numeric fields give a raw policy
  amount (base times verification, impact and type factors) below \<^verbatim>\<open>min_amount\<close>, with
  \<^verbatim>\<open>min_amount\<close> not above \<^verbatim>\<open>max_amount\<close>, the calculation returns \<^verbatim>\<open>min_amount\<close> rounded
  to six fractional digits: the amount is raised to the floor. When \<^verbatim>\<open>min_amount\<close> has
  at most six fractional digits the funding operation does not reject the event as below
  the minimum: if the balance is at least \<^verbatim>\<open>min_amount\<close>, the gateway calls succeed and the
  event has an id, a disbursement of exactly \<^verbatim>\<open>min_amount\<close> is created and stored pending.
  For the event of the scenario that amount is 0.01.

  The claim as stated, rejection of every event whose raw amount is below the minimum,
  fails in that very scenario, as evaluated above: line 173 takes the maximum of the
  minimum and the raw amount before line 99 compares the result with the minimum.
\<close>

theorem below_minimum_amount_raised_to_floor:
  assumes "getattr (funding_recommendation ev) (Num (min_funding_amount cfg)) = Num r"
    and "getattr (verification_score ev) (Num 80) = Num v"
    and "getattr (human_impact_estimate ev) (Num 100) = Num h"
    and "original_event ev = Some oe"
    and "raw_amount cfg r v h (disaster_type oe) < min_funding_amount cfg"
    and "min_funding_amount cfg \<le> max_funding_amount cfg"
  shows "calculate_funding_amount cfg ev = py_round (min_funding_amount cfg) 6 \<and>
         (py_round (min_funding_amount cfg) 6 = min_funding_amount cfg \<longrightarrow>
          get_balance env w = (Inr b, w1) \<longrightarrow> min_funding_amount cfg \<le> b \<longrightarrow>
          get_default_recipients env (disaster_type oe) w1 = (Inr rs, w2) \<longrightarrow>
          calculate_recipient_amounts env (min_funding_amount cfg) rs w2 = (Inr ras, w3) \<longrightarrow>
          send_multiple_transactions env ras w3 = (Inr results, w4) \<longrightarrow>
          event_id ev = Some eid \<longrightarrow>
          (\<exists>ft t s' w'. distribute_funding env cfg ev (s, w) = (Some ft, s', w') \<and>
             total_amount ft = min_funding_amount cfg \<and> status ft = Pending \<and>
             pending_transactions s' =
               AList.update (issued s)
                 \<lparr>funding_transaction = ft, transaction_results = results, created_at = t\<rparr>
                 (pending_transactions s)))"
proof -
  from assms(5,6)
  have "min (max_funding_amount cfg)
          (max (min_funding_amount cfg) (raw_amount cfg r v h (disaster_type oe)))
        = min_funding_amount cfg"
    by simp
  with calculate_try_numeric[OF assms(1-4)]
  have c: "calculate_funding_amount cfg ev = py_round (min_funding_amount cfg) 6"
    by (simp add: calculate_funding_amount_def)
  show ?thesis
  proof (intro conjI impI)
    show "calculate_funding_amount cfg ev = py_round (min_funding_amount cfg) 6" by (rule c)
  next
    assume r: "py_round (min_funding_amount cfg) 6 = min_funding_amount cfg"
      and "get_balance env w = (Inr b, w1)" and "min_funding_amount cfg \<le> b"
      and "get_default_recipients env (disaster_type oe) w1 = (Inr rs, w2)"
      and "calculate_recipient_amounts env (min_funding_amount cfg) rs w2 = (Inr ras, w3)"
      and "send_multiple_transactions env ras w3 = (Inr results, w4)"
      and "event_id ev = Some eid"
    with c assms(4)
    show "\<exists>ft t s' w'. distribute_funding env cfg ev (s, w) = (Some ft, s', w') \<and>
             total_amount ft = min_funding_amount cfg \<and> status ft = Pending \<and>
             pending_transactions s' =
               AList.update (issued s)
                 \<lparr>funding_transaction = ft, transaction_results = results, created_at = t\<rparr>
                 (pending_transactions s)"
      by (intro distribute_funding_success[where b = b and ?w1.0 = w1 and ?w2.0 = w2
            and ?w3.0 = w3 and ?w4.0 = w4 and rs = rs and ras = ras and oe = oe and eid = eid])
         simp_all
  qed
qed


theorem below_minimum_amount_raised_to_floor_witness:
  "raw_amount default_config 0 80 100 (disaster_type \<lparr>disaster_type = ''fire''\<rparr>)
     < min_funding_amount default_config \<and>
   calculate_funding_amount default_config fire_event = 1 / 100 \<and>
   (\<exists>ft t s' w'.
      distribute_funding demo_env default_config fire_event (initial_agent, 0) = (Some ft, s', w') \<and>
      total_amount ft = 1 / 100 \<and> status ft = Pending \<and>
      pending_transactions s' =
        AList.update 0
          \<lparr>funding_transaction = ft,
           transaction_results =
             [\<lparr>transaction_hash = Some ''ngo''\<rparr>, \<lparr>transaction_hash = Some ''gov''\<rparr>],
           created_at = t\<rparr> [])"
proof -
  let ?oe = "\<lparr>disaster_type = ''fire''\<rparr>"
  have h1: "getattr (funding_recommendation fire_event) (Num (min_funding_amount default_config))
            = Num 0"
    and h2: "getattr (verification_score fire_event) (Num 80) = Num 80"
    and h3: "getattr (human_impact_estimate fire_event) (Num 100) = Num 100"
    and h4: "original_event fire_event = Some ?oe"
    by (simp_all add: fire_event_def getattr_def)
  have h5: "raw_amount default_config 0 80 100 (disaster_type ?oe)
            < min_funding_amount default_config"
    by code_simp
  have h6: "min_funding_amount default_config \<le> max_funding_amount default_config"
    by (simp add: default_config_def)
  have m: "min_funding_amount default_config = 1 / 100"
    by (simp add: default_config_def)
  have g1: "py_round (min_funding_amount default_config) 6 = min_funding_amount default_config"
    by code_simp
  have g2: "get_balance demo_env 0 = (Inr 10, 0)"
    and g3: "get_default_recipients demo_env (disaster_type ?oe) 0
             = (Inr [(''ngo'', 6 / 10), (''gov'', 4 / 10)], 0)"
    and g5: "send_multiple_transactions demo_env
               [\<lparr>address = ''ngo'', amount = 6 / 1000\<rparr>, \<lparr>address = ''gov'', amount = 4 / 1000\<rparr>] 0
             = (Inr [\<lparr>transaction_hash = Some ''ngo''\<rparr>, \<lparr>transaction_hash = Some ''gov''\<rparr>], 0)"
    and g6: "event_id fire_event = Some ''evt-fire''"
    by (simp_all add: demo_env_def fire_event_def)
  have g4: "calculate_recipient_amounts demo_env (min_funding_amount default_config)
              [(''ngo'', 6 / 10), (''gov'', 4 / 10)] 0
            = (Inr [\<lparr>address = ''ngo'', amount = 6 / 1000\<rparr>, \<lparr>address = ''gov'', amount = 4 / 1000\<rparr>], 0)"
    by (simp add: demo_env_def default_config_def)
  have i: "issued initial_agent = 0" "pending_transactions initial_agent = []"
    by (simp_all add: initial_agent_def)
  from below_minimum_amount_raised_to_floor[OF h1 h2 h3 h4 h5 h6,
      where env = demo_env and w = 0 and b = 10 and s = initial_agent]
    g1 g2 g3 g4 g5 g6 h5
  show ?thesis
    by (simp add: m i)
qed

text \<open>
  What holds of every amount for which a disbursement is created: it is at least the
  minimum, because line 99 rejects anything less, and at most the rounded ceiling, or the
  minimum where that is larger (the value of the \<^verbatim>\<open>except\<close> clause).
\<close>

lemma round_half_even_near:
  "of_int (round_half_even y) - 1 / 2 \<le> y \<and> y \<le> of_int (round_half_even y) + 1 / 2"
proof -
  define f where "f = \<lfloor>y\<rfloor>"
  have lo: "of_int f \<le> y" and hi: "y < of_int f + 1"
    unfolding f_def by linarith+
  consider "y - of_int f < 1 / 2" | "1 / 2 < y - of_int f" | "y - of_int f = 1 / 2"
    by linarith
  then show ?thesis
  proof cases
    case 1
    then have "round_half_even y = f"
      by (simp add: round_half_even_def Let_def f_def)
    with lo 1 show ?thesis by simp
  next
    case 2
    then have "round_half_even y = f + 1"
      by (simp add: round_half_even_def Let_def f_def)
    with hi 2 show ?thesis by simp
  next
    case 3
    then have "round_half_even y = f \<or> round_half_even y = f + 1"
      by (simp add: round_half_even_def Let_def f_def)
    with 3 show ?thesis by auto
  qed
qed

lemma round_half_even_mono:
  assumes "x \<le> y"
  shows "round_half_even x \<le> round_half_even y"
proof (rule ccontr)
  assume "\<not> round_half_even x \<le> round_half_even y"
  then have "round_half_even y + 1 \<le> round_half_even x" by simp
  then have "(of_int (round_half_even y) :: rat) + 1 \<le> of_int (round_half_even x)"
    by (metis of_int_1 of_int_add of_int_le_iff)
  with round_half_even_near[of x] round_half_even_near[of y] assms
  have "x = y" by linarith
  with \<open>\<not> round_half_even x \<le> round_half_even y\<close> show False by simp
qed

lemma py_round_mono: "x \<le> y \<Longrightarrow> py_round x n \<le> py_round y n"
  unfolding py_round_def
  by (intro divide_right_mono) (simp_all add: round_half_even_mono mult_right_mono)

lemma calculate_funding_amount_upper:
  "calculate_funding_amount cfg ev
     \<le> max (py_round (max_funding_amount cfg) 6) (min_funding_amount cfg)"
proof (cases "calculate_try cfg ev")
  case (Inl e)
  then show ?thesis by (simp add: calculate_funding_amount_def)
next
  case (Inr a)
  then obtain x where "a = py_round (min (max_funding_amount cfg) x) 6"
    by (auto simp add: calculate_try_def Let_def split: pyval.splits option.splits)
  then have "a \<le> py_round (max_funding_amount cfg) 6"
    by (simp add: py_round_mono)
  with Inr show ?thesis by (simp add: calculate_funding_amount_def)
qed

lemma created_amount_bounds:
  assumes "distribute_funding env cfg ev (s, w) = (Some ft, s', w')"
  shows "min_funding_amount cfg \<le> total_amount ft \<and>
         total_amount ft \<le> max (py_round (max_funding_amount cfg) 6) (min_funding_amount cfg)"
  using distribute_funding_cases[OF assms] calculate_funding_amount_upper[of cfg ev]
  by auto

text \<open>
  Claim C7 asks that every amount for which a disbursement is created lie between
  \<^verbatim>\<open>min_amount\<close> and \<^verbatim>\<open>max_amount\<close>, also after the final rounding. The calculation applies
  the ceiling and rounds afterwards: with a ceiling of 0.0000026, which has seven
  fractional digits, the casualty event of the end-to-end scenario is clamped to the ceiling
  and then rounded up to 0.000003, and a disbursement of 0.000003 is created. With the
  ceiling 0.000005 of the scenario itself the amount is exactly 0.000005.
\<close>

theorem rounding_exceeds_ceiling:
  "max_funding_amount fine_config = 26 / 10000000 \<and>
   calculate_funding_amount fine_config casualty_event = 3 / 1000000 \<and>
   max_funding_amount fine_config < calculate_funding_amount fine_config casualty_event \<and>
   map_option total_amount
     (fst (distribute_funding demo_env fine_config casualty_event (initial_agent, 0)))
     = Some (3 / 1000000) \<and>
   statuses (pending_transactions
     (fst (snd (distribute_funding demo_env fine_config casualty_event (initial_agent, 0)))))
     = [(0, Pending)] \<and>
   calculate_funding_amount micro_config casualty_event = 5 / 1000000"
  by code_simp

section \<open>Totality of the funding policy\<close>

lemma calculate_try_faults_iff:
  "(\<exists>e. calculate_try cfg ev = Inl e) \<longleftrightarrow>
     funding_recommendation ev = Some NotNum \<or> verification_score ev = Some NotNum \<or>
     human_impact_estimate ev = Some NotNum \<or> original_event ev = None"
  by (auto simp add: calculate_try_def getattr_def Let_def split: option.splits pyval.splits)

text \<open>
  Claim C10. The funding-amount calculation returns an amount for every event object. An
  event without \<^verbatim>\<open>funding_recommendation\<close> is treated as one that recommends
  \<^verbatim>\<open>min_funding_amount\<close>, one without \<^verbatim>\<open>verification_score\<close> as one with score 80, one
  without \<^verbatim>\<open>human_impact_estimate\<close> as one with estimate 100. The \<^verbatim>\<open>try\<close> block raises
  exactly when one of the three fields is not a number or the original event cannot be
  read; the fault is then caught and the result is \<^verbatim>\<open>min_funding_amount\<close>, which is not
  below the minimum, so that the funding operation goes on: if the balance covers the
  minimum, the gateway calls succeed and the event has an id and an original event, a
  disbursement of exactly \<^verbatim>\<open>min_funding_amount\<close> is created for the malformed event.
\<close>

theorem calculation_total_with_defaults:
  "calculate_funding_amount cfg (ev\<lparr>funding_recommendation := None\<rparr>)
     = calculate_funding_amount cfg
         (ev\<lparr>funding_recommendation := Some (Num (min_funding_amount cfg))\<rparr>) \<and>
   calculate_funding_amount cfg (ev\<lparr>verification_score := None\<rparr>)
     = calculate_funding_amount cfg (ev\<lparr>verification_score := Some (Num 80)\<rparr>) \<and>
   calculate_funding_amount cfg (ev\<lparr>human_impact_estimate := None\<rparr>)
     = calculate_funding_amount cfg (ev\<lparr>human_impact_estimate := Some (Num 100)\<rparr>) \<and>
   ((\<exists>e. calculate_try cfg ev = Inl e) \<longleftrightarrow>
      funding_recommendation ev = Some NotNum \<or> verification_score ev = Some NotNum \<or>
      human_impact_estimate ev = Some NotNum \<or> original_event ev = None) \<and>
   (calculate_try cfg ev = Inl e \<longrightarrow>
      calculate_funding_amount cfg ev = min_funding_amount cfg \<and>
      \<not> calculate_funding_amount cfg ev < min_funding_amount cfg \<and>
      (get_balance env w = (Inr b, w1) \<longrightarrow> min_funding_amount cfg \<le> b \<longrightarrow>
       original_event ev = Some oe \<longrightarrow>
       get_default_recipients env (disaster_type oe) w1 = (Inr rs, w2) \<longrightarrow>
       calculate_recipient_amounts env (min_funding_amount cfg) rs w2 = (Inr ras, w3) \<longrightarrow>
       send_multiple_transactions env ras w3 = (Inr results, w4) \<longrightarrow>
       event_id ev = Some eid \<longrightarrow>
       (\<exists>ft t s' w'. distribute_funding env cfg ev (s, w) = (Some ft, s', w') \<and>
          total_amount ft = min_funding_amount cfg \<and> status ft = Pending \<and>
          pending_transactions s' =
            AList.update (issued s)
              \<lparr>funding_transaction = ft, transaction_results = results, created_at = t\<rparr>
              (pending_transactions s))))"
proof (intro conjI impI)
  show "calculate_funding_amount cfg (ev\<lparr>funding_recommendation := None\<rparr>)
     = calculate_funding_amount cfg
         (ev\<lparr>funding_recommendation := Some (Num (min_funding_amount cfg))\<rparr>)"
    by (simp add: calculate_funding_amount_def calculate_try_def getattr_def
          split: option.splits pyval.splits)
  show "calculate_funding_amount cfg (ev\<lparr>verification_score := None\<rparr>)
     = calculate_funding_amount cfg (ev\<lparr>verification_score := Some (Num 80)\<rparr>)"
    by (simp add: calculate_funding_amount_def calculate_try_def getattr_def
          split: option.splits pyval.splits)
  show "calculate_funding_amount cfg (ev\<lparr>human_impact_estimate := None\<rparr>)
     = calculate_funding_amount cfg (ev\<lparr>human_impact_estimate := Some (Num 100)\<rparr>)"
    by (simp add: calculate_funding_amount_def calculate_try_def getattr_def
          split: option.splits pyval.splits)
  show "(\<exists>e. calculate_try cfg ev = Inl e) \<longleftrightarrow>
      funding_recommendation ev = Some NotNum \<or> verification_score ev = Some NotNum \<or>
      human_impact_estimate ev = Some NotNum \<or> original_event ev = None"
    by (rule calculate_try_faults_iff)
next
  assume f: "calculate_try cfg ev = Inl e"
  then show c: "calculate_funding_amount cfg ev = min_funding_amount cfg"
    by (simp add: calculate_funding_amount_def)
  then show "\<not> calculate_funding_amount cfg ev < min_funding_amount cfg"
    by simp
  assume "get_balance env w = (Inr b, w1)" and "min_funding_amount cfg \<le> b"
    and "original_event ev = Some oe"
    and "get_default_recipients env (disaster_type oe) w1 = (Inr rs, w2)"
    and "calculate_recipient_amounts env (min_funding_amount cfg) rs w2 = (Inr ras, w3)"
    and "send_multiple_transactions env ras w3 = (Inr results, w4)"
    and "event_id ev = Some eid"
  with c
  show "\<exists>ft t s' w'. distribute_funding env cfg ev (s, w) = (Some ft, s', w') \<and>
          total_amount ft = min_funding_amount cfg \<and> status ft = Pending \<and>
          pending_transactions s' =
            AList.update (issued s)
              \<lparr>funding_transaction = ft, transaction_results = results, created_at = t\<rparr>
              (pending_transactions s)"
    by (intro distribute_funding_success[where b = b and ?w1.0 = w1 and ?w2.0 = w2
          and ?w3.0 = w3 and ?w4.0 = w4 and rs = rs and ras = ras and oe = oe and eid = eid])
       simp_all
qed

theorem calculation_total_with_defaults_witness:
  "calculate_try default_config malformed_event = Inl (TypeError ''unsupported operand for /'') \<and>
   calculate_funding_amount default_config malformed_event = 1 / 100 \<and>
   calculate_funding_amount default_config (fire_event\<lparr>verification_score := None\<rparr>)
     = calculate_funding_amount default_config (fire_event\<lparr>verification_score := Some (Num 80)\<rparr>) \<and>
   (\<exists>ft t s' w'.
      distribute_funding demo_env default_config malformed_event (initial_agent, 0)
        = (Some ft, s', w') \<and>
      total_amount ft = 1 / 100 \<and> status ft = Pending \<and>
      pending_transactions s' =
        AList.update 0
          \<lparr>funding_transaction = ft,
           transaction_results =
             [\<lparr>transaction_hash = Some ''ngo''\<rparr>, \<lparr>transaction_hash = Some ''gov''\<rparr>],
           created_at = t\<rparr> [])"
proof -
  let ?oe = "\<lparr>disaster_type = ''fire''\<rparr>"
  have f: "calculate_try default_config malformed_event
           = Inl (TypeError ''unsupported operand for /'')"
    by code_simp
  have m: "min_funding_amount default_config = 1 / 100"
    by (simp add: default_config_def)
  have g2: "get_balance demo_env 0 = (Inr 10, 0)"
    and g3: "get_default_recipients demo_env (disaster_type ?oe) 0
             = (Inr [(''ngo'', 6 / 10), (''gov'', 4 / 10)], 0)"
    and g5: "send_multiple_transactions demo_env
               [\<lparr>address = ''ngo'', amount = 6 / 1000\<rparr>, \<lparr>address = ''gov'', amount = 4 / 1000\<rparr>] 0
             = (Inr [\<lparr>transaction_hash = Some ''ngo''\<rparr>, \<lparr>transaction_hash = Some ''gov''\<rparr>], 0)"
    and g6: "event_id malformed_event = Some ''evt-fire''"
    and g7: "original_event malformed_event = Some ?oe"
    by (simp_all add: demo_env_def malformed_event_def fire_event_def)
  have g4: "calculate_recipient_amounts demo_env (min_funding_amount default_config)
              [(''ngo'', 6 / 10), (''gov'', 4 / 10)] 0
            = (Inr [\<lparr>address = ''ngo'', amount = 6 / 1000\<rparr>, \<lparr>address = ''gov'', amount = 4 / 1000\<rparr>], 0)"
    by (simp add: demo_env_def default_config_def)
  have i: "issued initial_agent = 0" "pending_transactions initial_agent = []"
    by (simp_all add: initial_agent_def)
  note t = calculation_total_with_defaults[where cfg = default_config and env = demo_env
      and w = 0 and b = 10 and s = initial_agent and oe = ?oe
      and e = "TypeError ''unsupported operand for /''"]
  from t[where ev = malformed_event] f g2 g3 g4 g5 g6 g7
  have a: "calculate_funding_amount default_config malformed_event = 1 / 100"
    and b: "\<exists>ft t s' w'.
      distribute_funding demo_env default_config malformed_event (initial_agent, 0)
        = (Some ft, s', w') \<and>
      total_amount ft = 1 / 100 \<and> status ft = Pending \<and>
      pending_transactions s' =
        AList.update 0
          \<lparr>funding_transaction = ft,
           transaction_results =
             [\<lparr>transaction_hash = Some ''ngo''\<rparr>, \<lparr>transaction_hash = Some ''gov''\<rparr>],
           created_at = t\<rparr> []"
    by (simp_all add: m i)
  from t[where ev = fire_event]
  have c: "calculate_funding_amount default_config (fire_event\<lparr>verification_score := None\<rparr>)
     = calculate_funding_amount default_config (fire_event\<lparr>verification_score := Some (Num 80)\<rparr>)"
    by blast
  from f a b c show ?thesis by blast
qed

end
